theory Spec2Isabelle
  imports Main "HOL-Library.Word"
begin

unbundle bit_operations_syntax

section \<open>Bytes, buffers and errors\<close>

text \<open>
  A buffer is a list of bytes.  The exceptions the Python code can raise are values of
  \<open>error\<close>; a function that may raise returns \<open>error + 'a\<close>, with \<open>Inl\<close> the exception.
  \<open>SectionMisaligned\<close> and \<open>SectionSizeMisaligned\<close> are the two \<open>RuntimeError\<close>s of
  \<open>make_pe_section\<close> whose message is formatted from the section's name, its index and
  the offending value; they carry these three.
\<close>

type_synonym byte = "8 word"
type_synonym blob = "byte list"

datatype error =
  RuntimeError string
| SectionMisaligned blob nat int
| SectionSizeMisaligned blob nat int
| StructError
| IndexError
| AttributeError
| TypeError
| ZeroDivisionError

definition bind :: "error + 'a \<Rightarrow> ('a \<Rightarrow> error + 'b) \<Rightarrow> error + 'b" where
  "bind m f = (case m of Inl e \<Rightarrow> Inl e | Inr x \<Rightarrow> f x)"

subsection \<open>Python sequences\<close>

text \<open>
  Indexing a list raises \<open>IndexError\<close> out of range; a negative index counts from the
  end.  A slice never raises: its bounds are clamped to the sequence.
\<close>

definition py_index :: "'a list \<Rightarrow> int \<Rightarrow> error + 'a" where
  "py_index xs i =
     (if 0 \<le> i \<and> i < int (length xs) then Inr (xs ! nat i)
      else if - int (length xs) \<le> i \<and> i < 0 then Inr (xs ! nat (int (length xs) + i))
      else Inl IndexError)"

definition py_update :: "'a list \<Rightarrow> int \<Rightarrow> 'a \<Rightarrow> 'a list" where
  "py_update xs i v = xs[nat (if i < 0 then int (length xs) + i else i) := v]"

definition slice_bound :: "'a list \<Rightarrow> int \<Rightarrow> nat" where
  "slice_bound xs i = (if i < 0 then nat (int (length xs) + i) else min (nat i) (length xs))"

definition py_slice :: "'a list \<Rightarrow> int \<Rightarrow> int \<Rightarrow> 'a list" where
  "py_slice xs start stop = drop (slice_bound xs start) (take (slice_bound xs stop) xs)"

definition slice_to :: "'a list \<Rightarrow> int \<Rightarrow> 'a list" where
  "slice_to xs stop = take (slice_bound xs stop) xs"

definition slice_from :: "'a list \<Rightarrow> int \<Rightarrow> 'a list" where
  "slice_from xs start = drop (slice_bound xs start) xs"

subsection \<open>The byte buffer\<close>

text \<open>
  Modelled from the spec: the byte buffer (module \<open>blob\<close>: \<open>Blob\<close>, \<open>IoBlob\<close>, \<open>PadBlob\<close>,
  \<open>join_blobs\<close>, \<open>write_blob\<close>) is not among the sources.  It is a sequence of bytes with
  length, slicing and concatenation; \<open>PadBlob(n)\<close> is \<open>n\<close> zero bytes, \<open>join_blobs\<close>
  concatenates fragments, \<open>blob.seek(offs)\<close> gives the stream of the bytes from \<open>offs\<close> on,
  and \<open>read(n)\<close> takes at most \<open>n\<close> bytes from a stream, which is modelled as the buffer
  that remains to be read.  \<open>blob.load(offs, '<H')\<close>, a little-endian primitive read at an
  offset, follows the record codec below.
\<close>

definition join_blobs :: "blob list \<Rightarrow> blob" where
  "join_blobs blobs = concat blobs"

definition PadBlob :: "int \<Rightarrow> blob" where
  "PadBlob n = replicate (nat n) 0"

definition seek :: "blob \<Rightarrow> int \<Rightarrow> blob" where
  "seek blob offs = slice_from blob offs"

definition read :: "blob \<Rightarrow> nat \<Rightarrow> blob \<times> blob" where
  "read fin n = (take n fin, drop n fin)"

section \<open>The checksum: \<open>pe_checksum\<close>\<close>

text \<open>
  \<open>struct.unpack('<nH', b)\<close>: \<open>n\<close> little-endian unsigned 16-bit words; it raises
  \<open>struct.error\<close> unless \<open>b\<close> has exactly \<open>2 * n\<close> bytes.  The words are unsigned, so
  the sums built from them are natural numbers.
\<close>

fun le_words :: "blob \<Rightarrow> nat list" where
  "le_words (lo # hi # bs) = (unat lo + 256 * unat hi) # le_words bs"
| "le_words _ = []"

definition unpack_H :: "nat \<Rightarrow> blob \<Rightarrow> error + nat list" where
  "unpack_H n b = (if length b = 2 * n then Inr (le_words b) else Inl StructError)"

text \<open>The first loop: \<open>while len(blob) >= 0x1000\<close>, one block of 2048 words at a time.\<close>

function sum_blocks :: "nat \<Rightarrow> blob \<Rightarrow> error + nat \<times> blob" where
  "sum_blocks r blob =
     (if 0x1000 \<le> length blob then
        (case unpack_H 2048 (take 0x1000 blob) of
           Inl e \<Rightarrow> Inl e
         | Inr words \<Rightarrow> sum_blocks (r + sum_list words) (drop 0x1000 blob))
      else Inr (r, blob))"
  by pat_completeness auto
termination
  by (relation "measure (\<lambda>(r, blob). length blob)") auto

declare sum_blocks.simps [simp del]

text \<open>The inner loop of the fold: \<open>while c: r += c & 0xffff; c >>= 16\<close>.\<close>

function add_limbs :: "nat \<Rightarrow> nat \<Rightarrow> nat" where
  "add_limbs c r = (if c \<noteq> 0 then add_limbs (drop_bit 16 c) (r + (c AND 0xffff)) else r)"
  by pat_completeness auto
termination
  by (relation "measure (\<lambda>(c, r). c)") (auto simp: drop_bit_eq_div)

declare add_limbs.simps [simp del]

lemma and_ffff: "(c::nat) AND 0xffff = c mod 65536"
proof -
  have "c AND mask 16 = c mod 2 ^ 16"
    by (simp only: take_bit_eq_mask [symmetric] take_bit_eq_mod)
  then show ?thesis
    by (simp add: mask_eq_exp_minus_1)
qed

lemma drop_bit_16: "drop_bit 16 (c::nat) = c div 65536"
  by (simp add: drop_bit_eq_div)

lemma limb_split_le: "(c::nat) mod 65536 + c div 65536 \<le> c"
proof -
  have "c div 65536 \<le> 65536 * (c div 65536)" by simp
  moreover have "c = 65536 * (c div 65536) + c mod 65536" by simp
  ultimately show ?thesis by linarith
qed

lemma limb_split_less: "65535 < (c::nat) \<Longrightarrow> c mod 65536 + c div 65536 < c"
proof -
  assume "65535 < c"
  then have "0 < c div 65536" by (simp add: div_greater_zero_iff)
  then have "c div 65536 < 65536 * (c div 65536)" by simp
  moreover have "c = 65536 * (c div 65536) + c mod 65536" by simp
  ultimately show ?thesis by linarith
qed

lemma add_limbs_le: "add_limbs c r \<le> r + c"
proof (induction c r rule: add_limbs.induct)
  case (1 c r)
  show ?case
  proof (cases "c = 0")
    case True
    then show ?thesis by (simp add: add_limbs.simps)
  next
    case False
    have "add_limbs c r = add_limbs (drop_bit 16 c) (r + (c AND 0xffff))"
      using False by (subst add_limbs.simps) simp
    also have "\<dots> \<le> (r + (c AND 0xffff)) + drop_bit 16 c"
      using "1.IH" False by simp
    also have "\<dots> \<le> r + c"
      using limb_split_le [of c] by (simp add: and_ffff drop_bit_16)
    finally show ?thesis .
  qed
qed

lemma add_limbs_less: "0xffff < c \<Longrightarrow> add_limbs c 0 < c"
proof -
  assume big: "0xffff < c"
  have "add_limbs c 0 = add_limbs (drop_bit 16 c) (c AND 0xffff)"
    using big by (subst add_limbs.simps) simp
  also have "\<dots> \<le> (c AND 0xffff) + drop_bit 16 c"
    by (rule add_limbs_le)
  also have "\<dots> < c"
    using big limb_split_less [of c] by (simp add: and_ffff drop_bit_16)
  finally show ?thesis .
qed

text \<open>The outer loop of the fold: \<open>while r > 0xffff: c = r; r = 0; ...\<close>.\<close>

function fold_carries :: "nat \<Rightarrow> nat" where
  "fold_carries r = (if 0xffff < r then fold_carries (add_limbs r 0) else r)"
  by pat_completeness auto
termination fold_carries
  by (relation "measure (\<lambda>r. r)") (auto simp: add_limbs_less)

declare fold_carries.simps [simp del]

definition pe_checksum :: "blob list \<Rightarrow> error + nat" where
  "pe_checksum blobs =
     (let blob = join_blobs blobs;
          total_len = length blob
      in bind (sum_blocks 0 blob) (\<lambda>(r, blob).
         bind (unpack_H (length blob div 2) blob) (\<lambda>words.
         Inr (fold_carries (r + sum_list words) + total_len))))"

section \<open>The checksum as the specification words it\<close>

text \<open>
  The reference of the specification, written from its words and not from the code: the sum
  of all little-endian 16-bit words of the whole buffer, folded by replacing it with the sum
  of its 16-bit limbs until it is at most \<open>0xFFFF\<close>, plus the total length, truncated to
  32 bits.
\<close>

fun ref_word_sum :: "blob \<Rightarrow> nat" where
  "ref_word_sum (lo # hi # rest) = unat lo + 256 * unat hi + ref_word_sum rest"
| "ref_word_sum _ = 0"

function ref_limbs :: "nat \<Rightarrow> nat list" where
  "ref_limbs r = (if r = 0 then [] else (r mod 65536) # ref_limbs (r div 65536))"
  by pat_completeness auto
termination
  by (relation "measure (\<lambda>r. r)") auto

declare ref_limbs.simps [simp del]

lemma sum_ref_limbs_le: "sum_list (ref_limbs r) \<le> r"
proof (induction r rule: ref_limbs.induct)
  case (1 r)
  show ?case
  proof (cases "r = 0")
    case True
    then show ?thesis by (simp add: ref_limbs.simps)
  next
    case False
    then have "sum_list (ref_limbs r) = r mod 65536 + sum_list (ref_limbs (r div 65536))"
      by (subst ref_limbs.simps) simp
    also have "\<dots> \<le> r mod 65536 + r div 65536"
      using "1.IH" False by simp
    also have "\<dots> \<le> r"
      by (rule limb_split_le)
    finally show ?thesis .
  qed
qed

lemma sum_ref_limbs_less: "0xFFFF < r \<Longrightarrow> sum_list (ref_limbs r) < r"
proof -
  assume big: "0xFFFF < r"
  then have "sum_list (ref_limbs r) = r mod 65536 + sum_list (ref_limbs (r div 65536))"
    by (subst ref_limbs.simps) simp
  also have "\<dots> \<le> r mod 65536 + r div 65536"
    by (simp add: sum_ref_limbs_le)
  also have "\<dots> < r"
    using big by (simp add: limb_split_less)
  finally show ?thesis .
qed

function ref_fold :: "nat \<Rightarrow> nat" where
  "ref_fold r = (if r \<le> 0xFFFF then r else ref_fold (sum_list (ref_limbs r)))"
  by pat_completeness auto
termination ref_fold
  by (relation "measure (\<lambda>r. r)") (auto simp: sum_ref_limbs_less)

declare ref_fold.simps [simp del]

definition checksum_ref :: "blob \<Rightarrow> nat" where
  "checksum_ref buffer = (ref_fold (ref_word_sum buffer) + length buffer) mod 2 ^ 32"

section \<open>The record codec\<close>

text \<open>
  Modelled from the spec: the fixed-layout record codec (module \<open>structs2\<close>) is not among
  the sources.  A record is read and written field by field in declared order,
  little-endian, with no padding; \<open>parse\<close> reads exactly \<open>size\<close> bytes of the stream and
  fails on a shorter one, and \<open>pack\<close> refuses a value outside the range of its field, as
  Python's \<open>struct\<close> module does.
\<close>

datatype fmt = B | H | I | Q

fun fmt_size :: "fmt \<Rightarrow> nat" where
  "fmt_size B = 1"
| "fmt_size H = 2"
| "fmt_size I = 4"
| "fmt_size Q = 8"

definition struct_size :: "fmt list \<Rightarrow> nat" where
  "struct_size fs = sum_list (map fmt_size fs)"

fun le_int :: "blob \<Rightarrow> int" where
  "le_int [] = 0"
| "le_int (b # bs) = uint b + 256 * le_int bs"

fun le_bytes :: "nat \<Rightarrow> int \<Rightarrow> blob" where
  "le_bytes 0 v = []"
| "le_bytes (Suc n) v = word_of_int v # le_bytes n (v div 256)"

fun unpack_fields :: "fmt list \<Rightarrow> blob \<Rightarrow> int list" where
  "unpack_fields [] b = []"
| "unpack_fields (f # fs) b =
     le_int (take (fmt_size f) b) # unpack_fields fs (drop (fmt_size f) b)"

definition struct_unpack :: "fmt list \<Rightarrow> blob \<Rightarrow> error + int list" where
  "struct_unpack fs b =
     (if length b = struct_size fs then Inr (unpack_fields fs b) else Inl StructError)"

fun struct_pack :: "(fmt \<times> int) list \<Rightarrow> error + blob" where
  "struct_pack [] = Inr []"
| "struct_pack ((f, v) # fvs) =
     (if 0 \<le> v \<and> v < 2 ^ (8 * fmt_size f)
      then bind (struct_pack fvs) (\<lambda>rest. Inr (le_bytes (fmt_size f) v @ rest))
      else Inl StructError)"

definition struct_parse :: "fmt list \<Rightarrow> blob \<Rightarrow> error + int list \<times> blob" where
  "struct_parse fs fin =
     (case read fin (struct_size fs) of (b, fin') \<Rightarrow>
        bind (struct_unpack fs b) (\<lambda>vs. Inr (vs, fin')))"

text \<open>Modelled from the spec: \<open>blob.load(offs, '<H')\<close> of the byte buffer.\<close>

definition load_H :: "blob \<Rightarrow> int \<Rightarrow> error + int" where
  "load_H blob offs = bind (struct_unpack [H] (py_slice blob offs (offs + 2))) (\<lambda>vs. Inr (vs ! 0))"

section \<open>The header records\<close>

text \<open>
  One record per \<open>Struct\<close> declaration of the source, fields in declared order.  The
  section header's second field is declared \<open>'I:PhysicalAddress:VirtualSize'\<close>: one storage
  with two names, of which the code only uses \<open>VirtualSize\<close>.
\<close>

record image_file_header =
  Machine :: int
  NumberOfSections :: int
  TimeDateStamp :: int
  PointerToSymbolTable :: int
  NumberOfSymbols :: int
  SizeOfOptionalHeader :: int
  Characteristics :: int

definition IMAGE_FILE_HEADER :: "fmt list" where
  "IMAGE_FILE_HEADER = [H, H, I, I, I, H, H]"

definition parse_file_header :: "blob \<Rightarrow> error + image_file_header \<times> blob" where
  "parse_file_header fin =
     bind (struct_parse IMAGE_FILE_HEADER fin) (\<lambda>(vs, fin').
       Inr (\<lparr>Machine = vs ! 0, NumberOfSections = vs ! 1, TimeDateStamp = vs ! 2,
             PointerToSymbolTable = vs ! 3, NumberOfSymbols = vs ! 4,
             SizeOfOptionalHeader = vs ! 5, Characteristics = vs ! 6\<rparr>, fin'))"

definition pack_file_header :: "image_file_header \<Rightarrow> error + blob" where
  "pack_file_header h =
     struct_pack (zip IMAGE_FILE_HEADER
       [Machine h, NumberOfSections h, TimeDateStamp h, PointerToSymbolTable h,
        NumberOfSymbols h, SizeOfOptionalHeader h, Characteristics h])"

definition IMAGE_NT_OPTIONAL_HDR32_MAGIC :: int where
  "IMAGE_NT_OPTIONAL_HDR32_MAGIC = 0x10b"

definition IMAGE_NT_OPTIONAL_HDR64_MAGIC :: int where
  "IMAGE_NT_OPTIONAL_HDR64_MAGIC = 0x20b"

text \<open>
  The optional header object is an instance of one of two layouts and carries the magic
  that chose it in its attribute \<open>sig\<close>.  The 64-bit layout has no \<open>BaseOfData\<close> (the
  field is \<open>None\<close> then) and 64-bit \<open>ImageBase\<close>, stack and heap sizes.
\<close>

record image_optional_header =
  MajorLinkerVersion :: int
  MinorLinkerVersion :: int
  SizeOfCode :: int
  SizeOfInitializedData :: int
  SizeOfUninitializedData :: int
  AddressOfEntryPoint :: int
  BaseOfCode :: int
  BaseOfData :: "int option"
  ImageBase :: int
  SectionAlignment :: int
  FileAlignment :: int
  MajorOperatingSystemVersion :: int
  MinorOperatingSystemVersion :: int
  MajorImageVersion :: int
  MinorImageVersion :: int
  MajorSubsystemVersion :: int
  MinorSubsystemVersion :: int
  Reserved1 :: int
  SizeOfImage :: int
  SizeOfHeaders :: int
  CheckSum :: int
  Subsystem :: int
  DllCharacteristics :: int
  SizeOfStackReserve :: int
  SizeOfStackCommit :: int
  SizeOfHeapReserve :: int
  SizeOfHeapCommit :: int
  LoaderFlags :: int
  NumberOfRvaAndSizes :: int
  sig :: int

definition IMAGE_OPTIONAL_HEADER32 :: "fmt list" where
  "IMAGE_OPTIONAL_HEADER32 =
     [B, B, I, I, I, I, I, I, I, I, I, H, H, H, H, H, H, I, I, I, I, H, H, I, I, I, I, I, I]"

definition IMAGE_OPTIONAL_HEADER64 :: "fmt list" where
  "IMAGE_OPTIONAL_HEADER64 =
     [B, B, I, I, I, I, I, Q, I, I, H, H, H, H, H, H, I, I, I, I, H, H, Q, Q, Q, Q, I, I]"

definition parse_optional_header32 :: "int \<Rightarrow> blob \<Rightarrow> error + image_optional_header \<times> blob" where
  "parse_optional_header32 opt_sig fin =
     bind (struct_parse IMAGE_OPTIONAL_HEADER32 fin) (\<lambda>(vs, fin').
       Inr (\<lparr>MajorLinkerVersion = vs ! 0, MinorLinkerVersion = vs ! 1, SizeOfCode = vs ! 2,
             SizeOfInitializedData = vs ! 3, SizeOfUninitializedData = vs ! 4,
             AddressOfEntryPoint = vs ! 5, BaseOfCode = vs ! 6, BaseOfData = Some (vs ! 7),
             ImageBase = vs ! 8, SectionAlignment = vs ! 9, FileAlignment = vs ! 10,
             MajorOperatingSystemVersion = vs ! 11, MinorOperatingSystemVersion = vs ! 12,
             MajorImageVersion = vs ! 13, MinorImageVersion = vs ! 14,
             MajorSubsystemVersion = vs ! 15, MinorSubsystemVersion = vs ! 16,
             Reserved1 = vs ! 17, SizeOfImage = vs ! 18, SizeOfHeaders = vs ! 19,
             CheckSum = vs ! 20, Subsystem = vs ! 21, DllCharacteristics = vs ! 22,
             SizeOfStackReserve = vs ! 23, SizeOfStackCommit = vs ! 24,
             SizeOfHeapReserve = vs ! 25, SizeOfHeapCommit = vs ! 26, LoaderFlags = vs ! 27,
             NumberOfRvaAndSizes = vs ! 28, sig = opt_sig\<rparr>, fin'))"

definition parse_optional_header64 :: "int \<Rightarrow> blob \<Rightarrow> error + image_optional_header \<times> blob" where
  "parse_optional_header64 opt_sig fin =
     bind (struct_parse IMAGE_OPTIONAL_HEADER64 fin) (\<lambda>(vs, fin').
       Inr (\<lparr>MajorLinkerVersion = vs ! 0, MinorLinkerVersion = vs ! 1, SizeOfCode = vs ! 2,
             SizeOfInitializedData = vs ! 3, SizeOfUninitializedData = vs ! 4,
             AddressOfEntryPoint = vs ! 5, BaseOfCode = vs ! 6, BaseOfData = None,
             ImageBase = vs ! 7, SectionAlignment = vs ! 8, FileAlignment = vs ! 9,
             MajorOperatingSystemVersion = vs ! 10, MinorOperatingSystemVersion = vs ! 11,
             MajorImageVersion = vs ! 12, MinorImageVersion = vs ! 13,
             MajorSubsystemVersion = vs ! 14, MinorSubsystemVersion = vs ! 15,
             Reserved1 = vs ! 16, SizeOfImage = vs ! 17, SizeOfHeaders = vs ! 18,
             CheckSum = vs ! 19, Subsystem = vs ! 20, DllCharacteristics = vs ! 21,
             SizeOfStackReserve = vs ! 22, SizeOfStackCommit = vs ! 23,
             SizeOfHeapReserve = vs ! 24, SizeOfHeapCommit = vs ! 25, LoaderFlags = vs ! 26,
             NumberOfRvaAndSizes = vs ! 27, sig = opt_sig\<rparr>, fin'))"

definition pack_optional_header :: "image_optional_header \<Rightarrow> error + blob" where
  "pack_optional_header opt =
     (case BaseOfData opt of
        Some base_of_data \<Rightarrow>
          struct_pack (zip IMAGE_OPTIONAL_HEADER32
            [MajorLinkerVersion opt, MinorLinkerVersion opt, SizeOfCode opt,
             SizeOfInitializedData opt, SizeOfUninitializedData opt, AddressOfEntryPoint opt,
             BaseOfCode opt, base_of_data, ImageBase opt, SectionAlignment opt,
             FileAlignment opt, MajorOperatingSystemVersion opt,
             MinorOperatingSystemVersion opt, MajorImageVersion opt, MinorImageVersion opt,
             MajorSubsystemVersion opt, MinorSubsystemVersion opt, Reserved1 opt,
             SizeOfImage opt, SizeOfHeaders opt, CheckSum opt, Subsystem opt,
             DllCharacteristics opt, SizeOfStackReserve opt, SizeOfStackCommit opt,
             SizeOfHeapReserve opt, SizeOfHeapCommit opt, LoaderFlags opt,
             NumberOfRvaAndSizes opt])
      | None \<Rightarrow>
          struct_pack (zip IMAGE_OPTIONAL_HEADER64
            [MajorLinkerVersion opt, MinorLinkerVersion opt, SizeOfCode opt,
             SizeOfInitializedData opt, SizeOfUninitializedData opt, AddressOfEntryPoint opt,
             BaseOfCode opt, ImageBase opt, SectionAlignment opt,
             FileAlignment opt, MajorOperatingSystemVersion opt,
             MinorOperatingSystemVersion opt, MajorImageVersion opt, MinorImageVersion opt,
             MajorSubsystemVersion opt, MinorSubsystemVersion opt, Reserved1 opt,
             SizeOfImage opt, SizeOfHeaders opt, CheckSum opt, Subsystem opt,
             DllCharacteristics opt, SizeOfStackReserve opt, SizeOfStackCommit opt,
             SizeOfHeapReserve opt, SizeOfHeapCommit opt, LoaderFlags opt,
             NumberOfRvaAndSizes opt]))"

definition optional_header_size :: "image_optional_header \<Rightarrow> nat" where
  "optional_header_size opt =
     (case BaseOfData opt of
        Some _ \<Rightarrow> struct_size IMAGE_OPTIONAL_HEADER32
      | None \<Rightarrow> struct_size IMAGE_OPTIONAL_HEADER64)"

record image_data_directory =
  dd_VirtualAddress :: int
  dd_Size :: int

definition IMAGE_DATA_DIRECTORY :: "fmt list" where
  "IMAGE_DATA_DIRECTORY = [I, I]"

definition parse_data_directory :: "blob \<Rightarrow> error + image_data_directory \<times> blob" where
  "parse_data_directory fin =
     bind (struct_parse IMAGE_DATA_DIRECTORY fin) (\<lambda>(vs, fin').
       Inr (\<lparr>dd_VirtualAddress = vs ! 0, dd_Size = vs ! 1\<rparr>, fin'))"

definition pack_data_directory :: "image_data_directory \<Rightarrow> error + blob" where
  "pack_data_directory dd =
     struct_pack (zip IMAGE_DATA_DIRECTORY [dd_VirtualAddress dd, dd_Size dd])"

record image_section_header =
  Name :: blob
  VirtualSize :: int
  VirtualAddress :: int
  SizeOfRawData :: int
  PointerToRawData :: int
  PointerToRelocations :: int
  PointerToLinenumbers :: int
  NumberOfRelocations :: int
  NumberOfLinenumbers :: int
  Characteristics_sec :: int

text \<open>The fields after the 8-byte \<open>Name\<close> (\<open>'8s'\<close>).\<close>

definition IMAGE_SECTION_HEADER :: "fmt list" where
  "IMAGE_SECTION_HEADER = [I, I, I, I, I, I, H, H, I]"

definition section_header_size :: nat where
  "section_header_size = 8 + struct_size IMAGE_SECTION_HEADER"

definition parse_section_header :: "blob \<Rightarrow> error + image_section_header \<times> blob" where
  "parse_section_header fin =
     (case read fin section_header_size of (b, fin') \<Rightarrow>
        if length b \<noteq> section_header_size then Inl StructError
        else bind (struct_unpack IMAGE_SECTION_HEADER (drop 8 b)) (\<lambda>vs.
          Inr (\<lparr>Name = take 8 b, VirtualSize = vs ! 0, VirtualAddress = vs ! 1,
                SizeOfRawData = vs ! 2, PointerToRawData = vs ! 3,
                PointerToRelocations = vs ! 4, PointerToLinenumbers = vs ! 5,
                NumberOfRelocations = vs ! 6, NumberOfLinenumbers = vs ! 7,
                Characteristics_sec = vs ! 8\<rparr>, fin')))"

text \<open>\<open>'8s'\<close> packs its bytes cut or zero-padded to 8.\<close>

definition pack_section_header :: "image_section_header \<Rightarrow> error + blob" where
  "pack_section_header h =
     bind (struct_pack (zip IMAGE_SECTION_HEADER
       [VirtualSize h, VirtualAddress h, SizeOfRawData h, PointerToRawData h,
        PointerToRelocations h, PointerToLinenumbers h, NumberOfRelocations h,
        NumberOfLinenumbers h, Characteristics_sec h])) (\<lambda>rest.
     Inr (take 8 (Name h) @ replicate (8 - length (Name h)) 0 @ rest))"

section \<open>The image: \<open>_PeSection\<close> and \<open>_PeFile\<close>\<close>

text \<open>
  A \<open>_PeSection\<close> object has the attributes \<open>hdr\<close> and \<open>data\<close> (\<open>None\<close> for a section
  without file backing).  \<open>_resize_directory\<close> and \<open>_find_vm_hole\<close> also use attributes
  \<open>VirtualAddress\<close> and \<open>VirtualSize\<close> of the section object itself (not of its header):
  an object has them only once they have been assigned, and reading a missing attribute
  raises \<open>AttributeError\<close>.
\<close>

record pe_section =
  hdr :: image_section_header
  data :: "blob option"
  sec_VirtualAddress :: "int option"
  sec_VirtualSize :: "int option"

definition PeSection :: "image_section_header \<Rightarrow> blob option \<Rightarrow> pe_section" where
  "PeSection h d = \<lparr>hdr = h, data = d, sec_VirtualAddress = None, sec_VirtualSize = None\<rparr>"

definition getattr :: "'a option \<Rightarrow> error + 'a" where
  "getattr a = (case a of None \<Rightarrow> Inl AttributeError | Some v \<Rightarrow> Inr v)"

record pe_file =
  pe_blob :: blob
  dos_stub :: blob
  file_header :: image_file_header
  opt_header :: image_optional_header
  data_directories :: "image_data_directory list"
  sections :: "pe_section list"
  trailer_offset :: int
  trailer :: blob
  checksum_offs :: int

definition IMAGE_DIRECTORY_ENTRY_SECURITY :: int where
  "IMAGE_DIRECTORY_ENTRY_SECURITY = 4"

definition align :: "int \<Rightarrow> int \<Rightarrow> error + int" where
  "align offs alignment =
     (if alignment = 0 then Inl ZeroDivisionError
      else Inr ((offs + alignment - 1) div alignment * alignment))"

definition file_align :: "pe_file \<Rightarrow> int \<Rightarrow> error + int" where
  "file_align self addr = align addr (FileAlignment (opt_header self))"

definition mem_align :: "pe_file \<Rightarrow> int \<Rightarrow> error + int" where
  "mem_align self addr = align addr (SectionAlignment (opt_header self))"

text \<open>
  \<open>_check_vm_overlaps\<close>: the loop over the sections sorted by \<open>VirtualAddress\<close>
  (\<open>sorted\<close> is stable, as \<open>sort_key\<close> is), with \<open>prev\<close> the section before.
\<close>

fun check_vm_loop :: "int \<Rightarrow> pe_section option \<Rightarrow> pe_section list \<Rightarrow> error + unit" where
  "check_vm_loop al prev [] = Inr ()"
| "check_vm_loop al prev (sec # secs) =
     (if al = 0 then Inl ZeroDivisionError
      else if VirtualAddress (hdr sec) mod al \<noteq> 0
        then Inl (RuntimeError ''sections are misaligned in memory'')
      else if (case prev of None \<Rightarrow> False
               | Some p \<Rightarrow> VirtualAddress (hdr p) + VirtualSize (hdr p) > VirtualAddress (hdr sec))
        then Inl (RuntimeError ''sections overlap in memory'')
      else check_vm_loop al (Some sec) secs)"

definition check_vm_overlaps :: "pe_file \<Rightarrow> error + unit" where
  "check_vm_overlaps self =
     check_vm_loop (SectionAlignment (opt_header self)) None
       (sort_key (\<lambda>sec. VirtualAddress (hdr sec)) (sections self))"

definition has_trailer :: "pe_file \<Rightarrow> bool" where
  "has_trailer self = (trailer self \<noteq> [])"

definition has_signature :: "pe_file \<Rightarrow> error + bool" where
  "has_signature self =
     (if int (length (data_directories self)) > IMAGE_DIRECTORY_ENTRY_SECURITY
      then bind (py_index (data_directories self) IMAGE_DIRECTORY_ENTRY_SECURITY) (\<lambda>dd.
             Inr (dd_VirtualAddress dd \<noteq> 0))
      else Inr False)"

text \<open>
  The methods that change the image return their result, or the exception they raise,
  together with the image as they leave it.
\<close>

definition remove_signature :: "pe_file \<Rightarrow> (error + unit) \<times> pe_file" where
  "remove_signature self =
     (if int (length (data_directories self)) < IMAGE_DIRECTORY_ENTRY_SECURITY then (Inr (), self)
      else case py_index (data_directories self) IMAGE_DIRECTORY_ENTRY_SECURITY of
        Inl e \<Rightarrow> (Inl e, self)
      | Inr dd \<Rightarrow>
          if dd_Size dd = 0 then (Inr (), self)
          else if dd_VirtualAddress dd + dd_Size dd \<noteq> trailer_offset self + int (length (trailer self))
            then (Inl (RuntimeError ''signature is not at the end of the file''), self)
          else if dd_VirtualAddress dd < trailer_offset self
            then (Inl (RuntimeError ''signature is not contained in the pe trailer''), self)
          else (Inr (),
            self\<lparr>trailer := slice_to (trailer self) (- dd_Size dd),
                 data_directories := py_update (data_directories self) IMAGE_DIRECTORY_ENTRY_SECURITY
                   (dd\<lparr>dd_VirtualAddress := 0, dd_Size := 0\<rparr>)\<rparr>))"

definition remove_trailer :: "pe_file \<Rightarrow> (error + unit) \<times> pe_file" where
  "remove_trailer self =
     (case remove_signature self of
        (Inl e, self') \<Rightarrow> (Inl e, self')
      | (Inr _, self') \<Rightarrow> (Inr (), self'\<lparr>trailer := []\<rparr>))"

definition has_directory :: "pe_file \<Rightarrow> int \<Rightarrow> error + bool" where
  "has_directory self idx =
     (if int (length (data_directories self)) < idx then Inr False
      else bind (py_index (data_directories self) idx) (\<lambda>dd.
        Inr (dd_VirtualAddress dd \<noteq> 0)))"

text \<open>\<open>find_directory\<close> returns \<open>None\<close> or the slice \<open>(start, stop)\<close>.\<close>

definition find_directory :: "pe_file \<Rightarrow> int \<Rightarrow> error + (int \<times> int) option" where
  "find_directory self idx =
     (if int (length (data_directories self)) < idx then Inr None
      else bind (py_index (data_directories self) idx) (\<lambda>dd.
        if dd_VirtualAddress dd = 0 then Inr None
        else Inr (Some (dd_VirtualAddress dd, dd_VirtualAddress dd + dd_Size dd))))"

text \<open>\<open>_get_directory_section\<close>: the index of the first section that matches, or \<open>None\<close>.\<close>

fun get_directory_section_loop :: "nat \<Rightarrow> pe_section list \<Rightarrow> int \<Rightarrow> int \<Rightarrow> nat option" where
  "get_directory_section_loop sec_idx [] start stop = None"
| "get_directory_section_loop sec_idx (sec # secs) start stop =
     (let vm_start = VirtualAddress (hdr sec);
          vm_stop = vm_start + VirtualSize (hdr sec)
      in if vm_start = start \<and> vm_stop \<ge> stop \<and> vm_stop = stop then Some sec_idx
         else get_directory_section_loop (Suc sec_idx) secs start stop)"

definition get_directory_section :: "pe_file \<Rightarrow> int \<Rightarrow> int \<Rightarrow> nat option" where
  "get_directory_section self start stop =
     get_directory_section_loop 0 (sections self) start stop"

text \<open>
  \<open>sorted(secs, key=lambda sec: sec.VirtualAddress)\<close> on section objects: the key of every
  element is computed first, and a missing attribute raises.
\<close>

fun keys_of :: "('a \<Rightarrow> error + int) \<Rightarrow> 'a list \<Rightarrow> error + int list" where
  "keys_of key [] = Inr []"
| "keys_of key (x # xs) =
     bind (key x) (\<lambda>k. bind (keys_of key xs) (\<lambda>ks. Inr (k # ks)))"

definition sorted_by :: "('a \<Rightarrow> error + int) \<Rightarrow> 'a list \<Rightarrow> error + 'a list" where
  "sorted_by key xs =
     bind (keys_of key xs) (\<lambda>ks. Inr (map snd (sort_key fst (zip ks xs))))"

text \<open>The loop of \<open>_find_vm_hole\<close> over the adjacent pairs \<open>sorted_secs[i-1], sorted_secs[i]\<close>.\<close>

fun find_vm_hole_loop :: "pe_file \<Rightarrow> pe_section list \<Rightarrow> int \<Rightarrow> error + (int \<times> int) option" where
  "find_vm_hole_loop self (prev # sec # secs) sz =
     bind (getattr (sec_VirtualAddress prev)) (\<lambda>prev_va.
     bind (getattr (sec_VirtualSize prev)) (\<lambda>prev_vs.
     bind (mem_align self (prev_va + prev_vs)) (\<lambda>start.
     bind (getattr (sec_VirtualAddress sec)) (\<lambda>stop.
       if stop - start \<ge> sz
       then bind (mem_align self (start + sz)) (\<lambda>e. Inr (Some (start, e)))
       else find_vm_hole_loop self (sec # secs) sz))))"
| "find_vm_hole_loop self secs sz = Inr None"

definition find_vm_hole :: "pe_file \<Rightarrow> pe_section list \<Rightarrow> int \<Rightarrow> error + int \<times> int" where
  "find_vm_hole self secs sz =
     bind (sorted_by (\<lambda>sec. getattr (sec_VirtualAddress sec)) secs) (\<lambda>sorted_secs.
     bind (find_vm_hole_loop self sorted_secs sz) (\<lambda>found.
       case found of
         Some sl \<Rightarrow> Inr sl
       | None \<Rightarrow>
           bind (py_index sorted_secs (- 1)) (\<lambda>last_sec.
           bind (getattr (sec_VirtualAddress last_sec)) (\<lambda>last_va.
           bind (getattr (sec_VirtualSize last_sec)) (\<lambda>last_vs.
           bind (mem_align self (last_va + last_vs)) (\<lambda>start.
           bind (mem_align self (start + sz)) (\<lambda>e. Inr (start, e))))))))"

text \<open>
  \<open>_resize_directory\<close> returns the index of the section and the slice \<open>(start, stop)\<close>.
  In the growing branch the assignments \<open>sec.VirtualAddress = sl.start\<close> and
  \<open>sec.VirtualSize = sl.stop\<close> set attributes of the section object; its header is not
  touched.
\<close>

definition other_secs :: "pe_section list \<Rightarrow> nat \<Rightarrow> pe_section list" where
  "other_secs secs sec_idx = map snd (filter (\<lambda>(idx, sec). idx \<noteq> sec_idx) (enumerate 0 secs))"

definition resize_directory_impl ::
    "pe_file \<Rightarrow> int \<Rightarrow> int \<Rightarrow> (error + nat \<times> int \<times> int) \<times> pe_file" where
  "resize_directory_impl self idx sz =
     (case py_index (data_directories self) idx of
        Inl e \<Rightarrow> (Inl e, self)
      | Inr dd \<Rightarrow>
         (case get_directory_section self (dd_VirtualAddress dd) (dd_VirtualAddress dd + dd_Size dd) of
            None \<Rightarrow>
              (Inl (RuntimeError ''can't modify a directory that is not associated with a section''), self)
          | Some sec_idx \<Rightarrow>
              let sec = sections self ! sec_idx in
              if VirtualSize (hdr sec) \<ge> sz then
                (Inr (sec_idx, VirtualAddress (hdr sec), VirtualAddress (hdr sec) + sz),
                 self\<lparr>sections := (sections self)[sec_idx := sec\<lparr>hdr := (hdr sec)\<lparr>VirtualSize := sz\<rparr>\<rparr>],
                      data_directories := py_update (data_directories self) idx (dd\<lparr>dd_Size := sz\<rparr>)\<rparr>)
              else
                (case find_vm_hole self (other_secs (sections self) sec_idx) sz of
                   Inl e \<Rightarrow> (Inl e, self)
                 | Inr (start, stop) \<Rightarrow>
                     (Inr (sec_idx, start, stop),
                      self\<lparr>sections := (sections self)[sec_idx :=
                             sec\<lparr>sec_VirtualAddress := Some start, sec_VirtualSize := Some stop\<rparr>],
                           data_directories := py_update (data_directories self) idx
                             (dd\<lparr>dd_VirtualAddress := start, dd_Size := sz\<rparr>)\<rparr>))))"

definition resize_directory :: "pe_file \<Rightarrow> int \<Rightarrow> int \<Rightarrow> (error + int \<times> int) \<times> pe_file" where
  "resize_directory self idx sz =
     (case resize_directory_impl self idx sz of
        (Inl e, self') \<Rightarrow> (Inl e, self')
      | (Inr (sec_idx, sl), self') \<Rightarrow> (Inr sl, self'))"

definition set_directory :: "pe_file \<Rightarrow> int \<Rightarrow> blob \<Rightarrow> (error + unit) \<times> pe_file" where
  "set_directory self idx blob =
     (case resize_directory_impl self idx (int (length blob)) of
        (Inl e, self') \<Rightarrow> (Inl e, self')
      | (Inr (sec_idx, sl), self') \<Rightarrow>
          (Inr (), self'\<lparr>sections := (sections self')[sec_idx :=
                     (sections self' ! sec_idx)\<lparr>data := Some blob\<rparr>]\<rparr>))"

section \<open>Parsing: \<open>_PeFile.__init__\<close>\<close>

definition PE_SIGNATURE :: blob where
  "PE_SIGNATURE = [0x50, 0x45, 0, 0]"

text \<open>\<open>make_pe_section\<close>, with \<open>name = hdr.Name.rstrip(b'\0')\<close> for the messages.\<close>

definition rstrip_zeros :: "blob \<Rightarrow> blob" where
  "rstrip_zeros b = rev (dropWhile (\<lambda>c. c = 0) (rev b))"

definition make_pe_section ::
    "blob \<Rightarrow> image_optional_header \<Rightarrow> nat \<Rightarrow> image_section_header \<Rightarrow> error + pe_section" where
  "make_pe_section blob opt idx h =
     (let name = rstrip_zeros (Name h) in
      if FileAlignment opt = 0 then Inl ZeroDivisionError
      else if PointerToRawData h mod FileAlignment opt \<noteq> 0
        then Inl (SectionMisaligned name idx (PointerToRawData h))
      else if SizeOfRawData h mod FileAlignment opt \<noteq> 0
        then Inl (SectionSizeMisaligned name idx (SizeOfRawData h))
      else Inr (PeSection h
        (if PointerToRawData h = 0 then None
         else Some (py_slice blob (PointerToRawData h) (PointerToRawData h + SizeOfRawData h)))))"

fun parse_data_directories :: "nat \<Rightarrow> blob \<Rightarrow> error + image_data_directory list \<times> blob" where
  "parse_data_directories 0 fin = Inr ([], fin)"
| "parse_data_directories (Suc n) fin =
     bind (parse_data_directory fin) (\<lambda>(dd, fin).
     bind (parse_data_directories n fin) (\<lambda>(dds, fin). Inr (dd # dds, fin)))"

fun parse_sections ::
    "blob \<Rightarrow> image_optional_header \<Rightarrow> nat \<Rightarrow> nat \<Rightarrow> blob \<Rightarrow> error + pe_section list" where
  "parse_sections blob opt sec_idx 0 fin = Inr []"
| "parse_sections blob opt sec_idx (Suc n) fin =
     bind (parse_section_header fin) (\<lambda>(h, fin).
     bind (make_pe_section blob opt sec_idx h) (\<lambda>sec.
     bind (parse_sections blob opt (Suc sec_idx) n fin) (\<lambda>secs. Inr (sec # secs))))"

text \<open>The loop \<open>i = 1; while i < len(present_secs)\<close> over adjacent present sections.\<close>

fun check_holes :: "pe_section list \<Rightarrow> error + unit" where
  "check_holes (prev # sec # secs) =
     (if PointerToRawData (hdr prev) + SizeOfRawData (hdr prev) \<noteq> PointerToRawData (hdr sec)
      then Inl (RuntimeError ''there are holes between sections'')
      else check_holes (sec # secs))"
| "check_holes secs = Inr ()"

text \<open>The first part of \<open>__init__\<close>: the headers, up to the data directories.\<close>

definition parse_headers ::
    "blob \<Rightarrow> error + int \<times> int \<times> image_file_header \<times> image_optional_header
      \<times> image_data_directory list \<times> blob" where
  "parse_headers blob =
     bind (load_H blob 0x3c) (\<lambda>pe_offs.
     case read (seek blob pe_offs) 4 of (sig_bytes, fin) \<Rightarrow>
     if sig_bytes \<noteq> PE_SIGNATURE then Inl (RuntimeError ''Not a PE file: PE signature is missing.'')
     else
     bind (parse_file_header fin) (\<lambda>(h, fin).
     case read fin 2 of (b, fin) \<Rightarrow>
     bind (struct_unpack [H] b) (\<lambda>vs.
     let opt_sig = vs ! 0 in
     bind (if opt_sig = IMAGE_NT_OPTIONAL_HDR32_MAGIC then parse_optional_header32 opt_sig fin
           else if opt_sig = IMAGE_NT_OPTIONAL_HDR64_MAGIC then parse_optional_header64 opt_sig fin
           else Inl (RuntimeError ''Unknown optional header type.'')) (\<lambda>(opt, fin).
     let checksum_offs = pe_offs + 4 + int (struct_size IMAGE_FILE_HEADER) + 4 * 16 in
     bind (if CheckSum opt \<noteq> 0 then
             bind (pe_checksum [slice_to blob checksum_offs, [0, 0, 0, 0],
                                slice_from blob (checksum_offs + 4)]) (\<lambda>real_checksum.
               if CheckSum opt \<noteq> int real_checksum then Inl (RuntimeError ''incorrect checksum'')
               else Inr ())
           else Inr ()) (\<lambda>_.
     if FileAlignment opt = 0
       then Inl (RuntimeError ''IMAGE_OPTIONAL_HEADER.FileAlignment must be nonzero'')
     else
     bind (parse_data_directories (nat (NumberOfRvaAndSizes opt)) fin) (\<lambda>(dds, fin).
       Inr (pe_offs, checksum_offs, h, opt, dds, fin)))))))"

text \<open>The last part of \<open>__init__\<close>: the present sections, the trailer and the new object.\<close>

definition init_layout ::
    "blob \<Rightarrow> int \<Rightarrow> int \<Rightarrow> image_file_header \<Rightarrow> image_optional_header
      \<Rightarrow> image_data_directory list \<Rightarrow> pe_section list \<Rightarrow> error + pe_file" where
  "init_layout blob pe_offs checksum_at h opt dds secs =
     (let present_secs = sort_key (\<lambda>sec. PointerToRawData (hdr sec))
            (filter (\<lambda>sec. SizeOfRawData (hdr sec) \<noteq> 0) secs)
      in if present_secs = [] then Inl (RuntimeError ''no present sections'')
      else
        bind (check_holes present_secs) (\<lambda>_.
        let last_sec = last present_secs;
            end_of_image = PointerToRawData (hdr last_sec) + SizeOfRawData (hdr last_sec);
            self = \<lparr>pe_blob = blob, dos_stub = slice_to blob pe_offs, file_header = h,
                    opt_header = opt, data_directories = dds, sections = secs,
                    trailer_offset = end_of_image, trailer = slice_from blob end_of_image,
                    checksum_offs = checksum_at\<rparr>
        in bind (check_vm_overlaps self) (\<lambda>_. Inr self)))"

definition parse_pe :: "blob \<Rightarrow> error + pe_file" where
  "parse_pe blob =
     bind (parse_headers blob) (\<lambda>(pe_offs, checksum_at, h, opt, dds, fin).
     bind (parse_sections blob opt 0 (nat (NumberOfSections h)) fin) (\<lambda>secs.
       init_layout blob pe_offs checksum_at h opt dds secs))"

section \<open>Serialising: \<open>_PeFile.store\<close>\<close>

text \<open>
  The first loop over the sections assigns the file offsets.  It changes the headers in
  place, so it returns the sections as it leaves them also when it raises: \<open>len(sec.data)\<close>
  is a \<open>TypeError\<close> on \<open>None\<close>, after \<open>PointerToRawData\<close> has been assigned.
\<close>

fun assign_offsets :: "pe_file \<Rightarrow> int \<Rightarrow> pe_section list \<Rightarrow> (error + int) \<times> pe_section list" where
  "assign_offsets self section_offset [] = (Inr section_offset, [])"
| "assign_offsets self section_offset (sec # secs) =
     (if PointerToRawData (hdr sec) = 0 then
        (case assign_offsets self section_offset secs of (r, secs') \<Rightarrow> (r, sec # secs'))
      else
        let sec1 = sec\<lparr>hdr := (hdr sec)\<lparr>PointerToRawData := section_offset\<rparr>\<rparr> in
        case data sec of
          None \<Rightarrow> (Inl TypeError, sec1 # secs)
        | Some d \<Rightarrow>
            (case file_align self (int (length d)) of
               Inl e \<Rightarrow> (Inl e, sec1 # secs)
             | Inr aligned \<Rightarrow>
                 let sec2 = sec1\<lparr>hdr := (hdr sec1)\<lparr>SizeOfRawData := aligned\<rparr>\<rparr> in
                 (case assign_offsets self (section_offset + aligned) secs of
                    (r, secs') \<Rightarrow> (r, sec2 # secs'))))"

fun pack_all :: "('a \<Rightarrow> error + blob) \<Rightarrow> 'a list \<Rightarrow> error + blob list" where
  "pack_all pack [] = Inr []"
| "pack_all pack (x # xs) =
     bind (pack x) (\<lambda>b. bind (pack_all pack xs) (\<lambda>bs. Inr (b # bs)))"

text \<open>The last loop over the sections: the data of every section, then its padding.\<close>

fun section_blobs :: "pe_file \<Rightarrow> pe_section list \<Rightarrow> error + blob list" where
  "section_blobs self [] = Inr []"
| "section_blobs self (sec # secs) =
     (case data sec of
        None \<Rightarrow> Inl TypeError
      | Some d \<Rightarrow>
          bind (file_align self (int (length d))) (\<lambda>with_pad.
          let pad = with_pad - int (length d) in
          bind (section_blobs self secs) (\<lambda>rest.
            Inr ([d] @ (if pad \<noteq> 0 then [PadBlob pad] else []) @ rest))))"

text \<open>The part of \<open>store\<close> after \<open>self._opt_header.CheckSum = 0\<close>; it changes nothing.\<close>

definition store_output :: "pe_file \<Rightarrow> int \<Rightarrow> error + blob" where
  "store_output self header_pad =
     bind (pack_file_header (file_header self)) (\<lambda>packed_file_header.
     bind (struct_pack [(H, sig (opt_header self))]) (\<lambda>packed_sig.
     bind (pack_optional_header (opt_header self)) (\<lambda>packed_opt_header.
     bind (pack_all pack_data_directory (data_directories self)) (\<lambda>packed_dds.
     bind (pack_all (\<lambda>sec. pack_section_header (hdr sec)) (sections self)) (\<lambda>packed_secs.
     bind (section_blobs self (sections self)) (\<lambda>sec_blobs.
     let new_file = [dos_stub self, PE_SIGNATURE, packed_file_header, packed_sig, packed_opt_header]
           @ packed_dds @ packed_secs @ [PadBlob header_pad] @ sec_blobs @ [trailer self];
         out_blob = join_blobs new_file
     in
     bind (pe_checksum [out_blob]) (\<lambda>new_checksum.
     bind (struct_pack [(I, int new_checksum)]) (\<lambda>packed_checksum.
       Inr (slice_to out_blob (checksum_offs self) @ packed_checksum
            @ slice_from out_blob (checksum_offs self + 4))))))))))"

definition header_end :: "pe_file \<Rightarrow> int" where
  "header_end self =
     int (length (dos_stub self)) + 4 + int (struct_size IMAGE_FILE_HEADER) + 2
     + int (optional_header_size (opt_header self))
     + int (length (data_directories self)) * int (struct_size IMAGE_DATA_DIRECTORY)
     + int (length (sections self)) * int section_header_size"

definition store :: "pe_file \<Rightarrow> (error + blob) \<times> pe_file" where
  "store self =
     (case check_vm_overlaps self of
        Inl e \<Rightarrow> (Inl e, self)
      | Inr _ \<Rightarrow>
         (case file_align self (header_end self) of
            Inl e \<Rightarrow> (Inl e, self)
          | Inr section_offset \<Rightarrow>
             (case assign_offsets self section_offset (sections self) of
                (Inl e, secs) \<Rightarrow> (Inl e, self\<lparr>sections := secs\<rparr>)
              | (Inr _, secs) \<Rightarrow>
                 (store_output
                    (self\<lparr>sections := secs, opt_header := (opt_header self)\<lparr>CheckSum := 0\<rparr>\<rparr>)
                    (section_offset - header_end self),
                  self\<lparr>sections := secs, opt_header := (opt_header self)\<lparr>CheckSum := 0\<rparr>\<rparr>))))"

section \<open>Call sequences and overlapping ranges\<close>

text \<open>A sequence of \<open>resize_directory\<close> calls \<open>(idx, size)\<close>, stopped by the first that raises.\<close>

fun resize_all :: "pe_file \<Rightarrow> (int \<times> int) list \<Rightarrow> (error + unit) \<times> pe_file" where
  "resize_all self [] = (Inr (), self)"
| "resize_all self ((idx, sz) # calls) =
     (case resize_directory self idx sz of
        (Inl e, self') \<Rightarrow> (Inl e, self')
      | (Inr _, self') \<Rightarrow> resize_all self' calls)"

text \<open>Two half-open virtual ranges overlap when they share an address.\<close>

definition vm_end :: "pe_section \<Rightarrow> int" where
  "vm_end sec = VirtualAddress (hdr sec) + VirtualSize (hdr sec)"

definition ranges_overlap :: "pe_section \<Rightarrow> pe_section \<Rightarrow> bool" where
  "ranges_overlap a b \<longleftrightarrow>
     max (VirtualAddress (hdr a)) (VirtualAddress (hdr b)) < min (vm_end a) (vm_end b)"

text \<open>
  Three relations for the proofs: two sections lie \<open>apart\<close> when one ends before the other
  starts; \<open>shrunk a b\<close> when \<open>b\<close> is \<open>a\<close> at the same address and no larger; a list of
  sections is \<open>fresh\<close> when no object in it has been given the attribute
  \<open>VirtualAddress\<close>.
\<close>

definition apart :: "pe_section \<Rightarrow> pe_section \<Rightarrow> bool" where
  "apart a b \<longleftrightarrow> vm_end a \<le> VirtualAddress (hdr b) \<or> vm_end b \<le> VirtualAddress (hdr a)"

definition shrunk :: "pe_section \<Rightarrow> pe_section \<Rightarrow> bool" where
  "shrunk a b \<longleftrightarrow>
     VirtualAddress (hdr b) = VirtualAddress (hdr a) \<and> VirtualSize (hdr b) \<le> VirtualSize (hdr a)"

definition fresh :: "pe_section list \<Rightarrow> bool" where
  "fresh secs \<longleftrightarrow> (\<forall>sec\<in>set secs. sec_VirtualAddress sec = None)"

section \<open>Test images\<close>

text \<open>
  \<open>bss_buffer\<close> is a 32-bit image of 1024 bytes: the DOS stub with the PE header at \<open>0x40\<close>,
  the file header (two sections), the optional header (\<open>SectionAlignment = 0x1000\<close>,
  \<open>FileAlignment = 0x200\<close>, \<open>CheckSum = 0\<close>, two data directories), the import directory
  \<open>{0x1000, 0x10}\<close>, the section \<open>.text\<close> with 512 bytes of raw data at \<open>0x200\<close> and the
  section \<open>.bss\<close> without file backing; there is no trailer.  \<open>bss_image\<close> is the image that
  parsing it gives.
\<close>

definition le16 :: "int \<Rightarrow> blob" where
  "le16 v = le_bytes 2 v"

definition le32 :: "int \<Rightarrow> blob" where
  "le32 v = le_bytes 4 v"

definition bss_buffer :: blob where
  "bss_buffer =
     [0x4D, 0x5A] @ replicate 58 0 @ le32 0x40
     @ [0x50, 0x45, 0, 0]
     @ le16 0x14c @ le16 2 @ le32 0 @ le32 0 @ le32 0 @ le16 112 @ le16 0x102
     @ le16 0x10b
     @ [0, 0] @ le32 0x200 @ le32 0 @ le32 0x100 @ le32 0x1000 @ le32 0x1000 @ le32 0x2000
     @ le32 0x400000 @ le32 0x1000 @ le32 0x200
     @ le16 4 @ le16 0 @ le16 0 @ le16 0 @ le16 4 @ le16 0
     @ le32 0 @ le32 0x3000 @ le32 0x200 @ le32 0
     @ le16 3 @ le16 0
     @ le32 0x100000 @ le32 0x1000 @ le32 0x100000 @ le32 0x1000 @ le32 0 @ le32 2
     @ le32 0 @ le32 0
     @ le32 0x1000 @ le32 0x10
     @ [0x2E, 0x74, 0x65, 0x78, 0x74, 0, 0, 0]
     @ le32 0x10 @ le32 0x1000 @ le32 0x200 @ le32 0x200 @ le32 0 @ le32 0 @ le16 0 @ le16 0
     @ le32 0x60000020
     @ [0x2E, 0x62, 0x73, 0x73, 0, 0, 0, 0]
     @ le32 0x100 @ le32 0x2000 @ le32 0 @ le32 0 @ le32 0 @ le32 0 @ le16 0 @ le16 0
     @ le32 0xC0000080
     @ replicate 232 0
     @ [0xC3] @ replicate 511 0"

definition bss_image :: pe_file where
  "bss_image =
     \<lparr>pe_blob = bss_buffer,
      dos_stub = take 64 bss_buffer,
      file_header = \<lparr>Machine = 0x14c, NumberOfSections = 2, TimeDateStamp = 0,
        PointerToSymbolTable = 0, NumberOfSymbols = 0, SizeOfOptionalHeader = 112,
        Characteristics = 0x102\<rparr>,
      opt_header = \<lparr>MajorLinkerVersion = 0, MinorLinkerVersion = 0, SizeOfCode = 0x200,
        SizeOfInitializedData = 0, SizeOfUninitializedData = 0x100,
        AddressOfEntryPoint = 0x1000, BaseOfCode = 0x1000, BaseOfData = Some 0x2000,
        ImageBase = 0x400000, SectionAlignment = 0x1000, FileAlignment = 0x200,
        MajorOperatingSystemVersion = 4, MinorOperatingSystemVersion = 0,
        MajorImageVersion = 0, MinorImageVersion = 0,
        MajorSubsystemVersion = 4, MinorSubsystemVersion = 0,
        Reserved1 = 0, SizeOfImage = 0x3000, SizeOfHeaders = 0x200,
        CheckSum = 0, Subsystem = 3, DllCharacteristics = 0,
        SizeOfStackReserve = 0x100000, SizeOfStackCommit = 0x1000,
        SizeOfHeapReserve = 0x100000, SizeOfHeapCommit = 0x1000, LoaderFlags = 0,
        NumberOfRvaAndSizes = 2, sig = 0x10b\<rparr>,
      data_directories = [\<lparr>dd_VirtualAddress = 0, dd_Size = 0\<rparr>,
        \<lparr>dd_VirtualAddress = 0x1000, dd_Size = 0x10\<rparr>],
      sections = [
        PeSection \<lparr>Name = [0x2E, 0x74, 0x65, 0x78, 0x74, 0, 0, 0], VirtualSize = 0x10,
          VirtualAddress = 0x1000, SizeOfRawData = 0x200, PointerToRawData = 0x200,
          PointerToRelocations = 0, PointerToLinenumbers = 0, NumberOfRelocations = 0,
          NumberOfLinenumbers = 0, Characteristics_sec = 0x60000020\<rparr>
          (Some (0xC3 # replicate 511 0)),
        PeSection \<lparr>Name = [0x2E, 0x62, 0x73, 0x73, 0, 0, 0, 0], VirtualSize = 0x100,
          VirtualAddress = 0x2000, SizeOfRawData = 0, PointerToRawData = 0,
          PointerToRelocations = 0, PointerToLinenumbers = 0, NumberOfRelocations = 0,
          NumberOfLinenumbers = 0, Characteristics_sec = 0xC0000080\<rparr>
          None],
      trailer_offset = 0x400,
      trailer = [],
      checksum_offs = 0x98\<rparr>"

text \<open>
  Three images with a security directory (index 4) and a trailer of 8 bytes at \<open>0x400\<close>:
  in \<open>signed_image\<close> the entry is exactly the trailer, in \<open>misplaced_image\<close> it ends before
  the end of the file and starts before the trailer, in \<open>inside_image\<close> it ends at the end
  of the file and starts before the trailer.
\<close>

definition signed_image :: pe_file where
  "signed_image =
     bss_image\<lparr>data_directories :=
         [\<lparr>dd_VirtualAddress = 0, dd_Size = 0\<rparr>,
          \<lparr>dd_VirtualAddress = 0x1000, dd_Size = 0x10\<rparr>,
          \<lparr>dd_VirtualAddress = 0, dd_Size = 0\<rparr>,
          \<lparr>dd_VirtualAddress = 0, dd_Size = 0\<rparr>,
          \<lparr>dd_VirtualAddress = 0x400, dd_Size = 8\<rparr>],
       trailer := [8, 0, 0, 0, 0, 2, 2, 0]\<rparr>"

definition misplaced_image :: pe_file where
  "misplaced_image =
     signed_image\<lparr>data_directories :=
         (data_directories signed_image)[4 := \<lparr>dd_VirtualAddress = 0x3F0, dd_Size = 8\<rparr>]\<rparr>"

definition inside_image :: pe_file where
  "inside_image =
     signed_image\<lparr>data_directories :=
         (data_directories signed_image)[4 := \<lparr>dd_VirtualAddress = 0x3F8, dd_Size = 0x10\<rparr>]\<rparr>"

section \<open>Results of \<open>bind\<close>\<close>

lemma bind_Inl [simp]: "bind (Inl e) f = Inl e"
  by (simp add: bind_def)

lemma bind_Inr [simp]: "bind (Inr x) f = f x"
  by (simp add: bind_def)

lemma bind_eq_Inr: "bind m f = Inr y \<longleftrightarrow> (\<exists>x. m = Inr x \<and> f x = Inr y)"
  by (cases m) simp_all

lemma bind_fails: "(\<And>x. \<exists>e. f x = Inl e) \<Longrightarrow> \<exists>e. bind m f = Inl e"
  by (cases m) simp_all

section \<open>The checksum: properties\<close>

lemma ref_word_sum_le_words: "ref_word_sum b = sum_list (le_words b)"
  by (induction b rule: le_words.induct) simp_all

lemma add_limbs_ref: "add_limbs c r = r + sum_list (ref_limbs c)"
proof (induction c r rule: add_limbs.induct)
  case (1 c r)
  show ?case
  proof (cases "c = 0")
    case True
    then show ?thesis by (simp add: add_limbs.simps ref_limbs.simps)
  next
    case False
    have "add_limbs c r = add_limbs (drop_bit 16 c) (r + (c AND 0xffff))"
      using False by (subst add_limbs.simps) simp
    also have "\<dots> = (r + (c AND 0xffff)) + sum_list (ref_limbs (drop_bit 16 c))"
      using "1.IH" False by simp
    also have "\<dots> = r + sum_list (ref_limbs c)"
      using False by (subst (2) ref_limbs.simps) (simp add: and_ffff drop_bit_16)
    finally show ?thesis .
  qed
qed

lemma fold_carries_ref: "fold_carries r = ref_fold r"
proof (induction r rule: fold_carries.induct)
  case (1 r)
  show ?case
  proof (cases "0xffff < r")
    case True
    then have "fold_carries r = fold_carries (add_limbs r 0)"
      by (subst fold_carries.simps) simp
    also have "\<dots> = ref_fold (add_limbs r 0)"
      using "1.IH" True by simp
    also have "\<dots> = ref_fold r"
      using True by (subst (2) ref_fold.simps) (simp add: add_limbs_ref)
    finally show ?thesis .
  next
    case False
    then show ?thesis
      by (simp add: fold_carries.simps ref_fold.simps)
  qed
qed

lemma ref_fold_le: "ref_fold r \<le> 0xFFFF"
proof (induction r rule: ref_fold.induct)
  case (1 r)
  then show ?case
    by (cases "r \<le> 0xFFFF") (simp_all add: ref_fold.simps)
qed

lemma le_words_append:
  "even (length xs) \<Longrightarrow> le_words (xs @ ys) = le_words xs @ le_words ys"
  by (induction xs rule: le_words.induct) simp_all

lemma sum_blocks_total:
  "\<exists>r' rest. sum_blocks r b = Inr (r', rest)
      \<and> r' + sum_list (le_words rest) = r + sum_list (le_words b)
      \<and> even (length rest) = even (length b)"
proof (induction r b rule: sum_blocks.induct)
  case (1 r blob)
  show ?case
  proof (cases "0x1000 \<le> length blob")
    case False
    then show ?thesis by (simp add: sum_blocks.simps)
  next
    case True
    have len: "length (take 0x1000 blob) = 2 * 2048"
      using True by simp
    then have up: "unpack_H 2048 (take 0x1000 blob) = Inr (le_words (take 0x1000 blob))"
      by (simp add: unpack_H_def)
    from "1.IH" [OF True up]
    obtain r' rest where
      rec: "sum_blocks (r + sum_list (le_words (take 0x1000 blob))) (drop 0x1000 blob) = Inr (r', rest)"
      and sum: "r' + sum_list (le_words rest)
          = r + sum_list (le_words (take 0x1000 blob)) + sum_list (le_words (drop 0x1000 blob))"
      and par: "even (length rest) = even (length (drop 0x1000 blob))"
      by blast
    have "le_words blob = le_words (take 0x1000 blob @ drop 0x1000 blob)"
      by simp
    also have "\<dots> = le_words (take 0x1000 blob) @ le_words (drop 0x1000 blob)"
      using len by (intro le_words_append) simp
    finally have split: "sum_list (le_words blob)
        = sum_list (le_words (take 0x1000 blob)) + sum_list (le_words (drop 0x1000 blob))"
      by simp
    have "sum_blocks r blob = Inr (r', rest)"
      using True up rec by (subst sum_blocks.simps) simp
    moreover have "even (length (drop 0x1000 blob)) = even (length blob)"
      using True by simp
    ultimately show ?thesis
      using sum split par by simp
  qed
qed

lemma pe_checksum_even:
  assumes "even (length (join_blobs blobs))"
  shows "pe_checksum blobs
    = Inr (ref_fold (sum_list (le_words (join_blobs blobs))) + length (join_blobs blobs))"
proof -
  obtain r' rest where
    sb: "sum_blocks 0 (join_blobs blobs) = Inr (r', rest)"
    and sum: "r' + sum_list (le_words rest) = 0 + sum_list (le_words (join_blobs blobs))"
    and par: "even (length rest) = even (length (join_blobs blobs))"
    using sum_blocks_total [of 0 "join_blobs blobs"] by blast
  have "length rest = 2 * (length rest div 2)"
    using par assms by simp
  then have "unpack_H (length rest div 2) rest = Inr (le_words rest)"
    by (simp add: unpack_H_def)
  then show ?thesis
    using sb sum by (simp add: pe_checksum_def Let_def bind_def fold_carries_ref)
qed

lemma pe_checksum_odd:
  assumes "odd (length (join_blobs blobs))"
  shows "pe_checksum blobs = Inl StructError"
proof -
  obtain r' rest where
    sb: "sum_blocks 0 (join_blobs blobs) = Inr (r', rest)"
    and par: "even (length rest) = even (length (join_blobs blobs))"
    using sum_blocks_total [of 0 "join_blobs blobs"] by blast
  have "length rest \<noteq> 2 * (length rest div 2)"
    using par assms by presburger
  then have "unpack_H (length rest div 2) rest = Inl StructError"
    by (simp add: unpack_H_def)
  then show ?thesis
    using sb by (simp add: pe_checksum_def Let_def bind_def)
qed

lemma le_words_zeros: "le_words (replicate (2 * n) 0) = replicate n 0"
  by (induction n) simp_all

lemma sum_list_zeros: "sum_list (replicate n (0::nat)) = 0"
  by (induction n) simp_all

text \<open>
  Claim C8, as amended.  For every even-length buffer, \<open>pe_checksum\<close> returns the folded
  word sum of the reference plus the total length, \<^emph>\<open>not\<close> truncated (Python integers are
  unbounded and the function never reduces its result); this is the reference value,
  truncated to 32 bits, whenever the buffer is shorter than \<open>2^32 - 0xFFFF\<close> bytes.
\<close>

theorem checksum_reference:
  "even (length buffer) \<Longrightarrow>
     pe_checksum [buffer] = Inr (ref_fold (ref_word_sum buffer) + length buffer)
     \<and> (length buffer < 2 ^ 32 - 0xFFFF \<longrightarrow> pe_checksum [buffer] = Inr (checksum_ref buffer))"
proof -
  assume ev: "even (length buffer)"
  have eq: "pe_checksum [buffer] = Inr (ref_fold (ref_word_sum buffer) + length buffer)"
    using pe_checksum_even [of "[buffer]"] ev
    by (simp add: join_blobs_def ref_word_sum_le_words)
  have "ref_fold (ref_word_sum buffer) + length buffer < 2 ^ 32"
    if "length buffer < 2 ^ 32 - 0xFFFF"
    using that ref_fold_le [of "ref_word_sum buffer"] by simp
  then show ?thesis
    using eq by (simp add: checksum_ref_def)
qed

theorem checksum_reference_witness:
  "even (length [0x34, 0x12, 0xFF, 0xFF :: byte])
   \<and> length [0x34, 0x12, 0xFF, 0xFF :: byte] < 2 ^ 32 - 0xFFFF
   \<and> pe_checksum [[0x34, 0x12, 0xFF, 0xFF]] = Inr 4664
   \<and> checksum_ref [0x34, 0x12, 0xFF, 0xFF] = 4664"
proof -
  have ev: "even (length [0x34, 0x12, 0xFF, 0xFF :: byte])"
    by simp
  have lt: "length [0x34, 0x12, 0xFF, 0xFF :: byte] < 2 ^ 32 - 0xFFFF"
    by simp
  have ref: "checksum_ref [0x34, 0x12, 0xFF, 0xFF] = 4664"
    by (simp add: checksum_ref_def ref_fold.simps ref_limbs.simps)
  from checksum_reference [OF ev] lt
  have "pe_checksum [[0x34, 0x12, 0xFF, 0xFF]] = Inr (checksum_ref [0x34, 0x12, 0xFF, 0xFF])"
    by blast
  then show ?thesis
    using ev lt ref by simp
qed

text \<open>
  Claim C8 as stated fails on a buffer of \<open>2^32\<close> zero bytes: the code returns \<open>2^32\<close>, the
  reference truncates it to \<open>0\<close>.
\<close>

theorem checksum_truncation_counterexample:
  "even (length (replicate 4294967296 (0::byte)))
   \<and> pe_checksum [replicate 4294967296 0] = Inr 4294967296
   \<and> checksum_ref (replicate 4294967296 0) = 0"
proof -
  have w: "le_words (replicate 4294967296 (0::byte)) = replicate 2147483648 0"
    using le_words_zeros [of 2147483648] by simp
  have "pe_checksum [replicate 4294967296 0] = Inr 4294967296"
    using pe_checksum_even [of "[replicate 4294967296 0]"]
    by (simp add: join_blobs_def w sum_list_zeros ref_fold.simps)
  moreover have "checksum_ref (replicate 4294967296 0) = 0"
    by (simp add: checksum_ref_def ref_word_sum_le_words w sum_list_zeros ref_fold.simps)
  ultimately show ?thesis by simp
qed

text \<open>
  Claim C10.  On fragments of odd total length \<open>pe_checksum\<close> raises (\<open>struct.unpack\<close> of
  the last, partial block is given one byte too many for its format); it returns a value
  exactly when the total length is even.
\<close>

theorem checksum_odd_length_raises:
  "((\<exists>r. pe_checksum blobs = Inr r) \<longleftrightarrow> even (length (join_blobs blobs)))
   \<and> (odd (length (join_blobs blobs)) \<longrightarrow> pe_checksum blobs = Inl StructError)"
proof (cases "even (length (join_blobs blobs))")
  case True
  then show ?thesis
    using pe_checksum_even [of blobs] by simp
next
  case False
  then show ?thesis
    using pe_checksum_odd [of blobs] by simp
qed

theorem checksum_odd_length_raises_witness:
  "odd (length (join_blobs [[0x4D, 0x5A], [0x90 :: byte]]))
   \<and> pe_checksum [[0x4D, 0x5A], [0x90]] = Inl StructError"
proof -
  have od: "odd (length (join_blobs [[0x4D, 0x5A], [0x90 :: byte]]))"
    by (simp add: join_blobs_def)
  with checksum_odd_length_raises [of "[[0x4D, 0x5A], [0x90]]"] show ?thesis
    by blast
qed

section \<open>The image: properties\<close>

subsection \<open>The test image is the parsed test buffer\<close>

lemma parse_bss_buffer: "parse_pe bss_buffer = Inr bss_image"
  by code_simp

subsection \<open>Python indexing\<close>

lemma py_index_length:
  "py_index xs i = Inr x \<Longrightarrow> - int (length xs) \<le> i \<and> i < int (length xs)"
  by (auto simp: py_index_def Let_def split: if_splits)

lemma py_index_update_same:
  "py_index xs i = Inr x \<Longrightarrow> py_index (py_update xs i v) i = Inr v"
  by (auto simp: py_index_def py_update_def Let_def split: if_splits)

lemma length_py_update [simp]: "length (py_update xs i v) = length xs"
  by (simp add: py_update_def)

lemma py_index_at_length: "py_index xs (int (length xs)) = Inl IndexError"
  by (simp add: py_index_def Let_def)

subsection \<open>Directory lookups\<close>

lemma has_directory_at_length:
  "has_directory self (int (length (data_directories self))) = Inl IndexError"
  by (simp add: has_directory_def py_index_at_length)

lemma find_directory_at_length:
  "find_directory self (int (length (data_directories self))) = Inl IndexError"
  by (simp add: find_directory_def py_index_at_length)

lemma get_directory_section_loop_Some:
  "get_directory_section_loop k secs start stop = Some i \<Longrightarrow>
     k \<le> i \<and> i - k < length secs
     \<and> VirtualAddress (hdr (secs ! (i - k))) = start
     \<and> VirtualAddress (hdr (secs ! (i - k))) + VirtualSize (hdr (secs ! (i - k))) = stop"
proof (induction secs arbitrary: k)
  case Nil
  then show ?case by simp
next
  case (Cons sec secs)
  show ?case
  proof (cases "VirtualAddress (hdr sec) = start
      \<and> VirtualAddress (hdr sec) + VirtualSize (hdr sec) = stop")
    case True
    with Cons.prems show ?thesis by (simp add: Let_def)
  next
    case False
    with Cons.prems have "get_directory_section_loop (Suc k) secs start stop = Some i"
      by (auto simp: Let_def split: if_splits)
    from Cons.IH [OF this] show ?thesis
      by (auto simp: nth_Cons' Suc_diff_le)
  qed
qed

lemma get_directory_section_Some:
  "get_directory_section self start stop = Some i \<Longrightarrow>
     i < length (sections self)
     \<and> VirtualAddress (hdr (sections self ! i)) = start
     \<and> VirtualAddress (hdr (sections self ! i)) + VirtualSize (hdr (sections self ! i)) = stop"
  using get_directory_section_loop_Some [of 0 "sections self" start stop i]
  by (simp add: get_directory_section_def)

subsection \<open>Shrinking\<close>

text \<open>
  Claim C4.  When the directory \<open>idx\<close> is exactly the virtual range of the section that
  \<open>_get_directory_section\<close> finds, and the new size is at most that section's virtual
  size, \<open>resize_directory\<close> returns the range at the old address, leaves the section's
  \<open>VirtualAddress\<close> and the directory's \<open>VirtualAddress\<close> as they were, and sets the
  section's \<open>VirtualSize\<close> and the directory's \<open>Size\<close> to the new size.
\<close>

theorem shrink_in_place:
  assumes dd: "py_index (data_directories self) idx = Inr dd"
    and sec: "get_directory_section self (dd_VirtualAddress dd) (dd_VirtualAddress dd + dd_Size dd)
        = Some sec_idx"
    and le: "sz \<le> VirtualSize (hdr (sections self ! sec_idx))"
    and call: "resize_directory self idx sz = (r, self')"
  shows "r = Inr (dd_VirtualAddress dd, dd_VirtualAddress dd + sz)
    \<and> VirtualAddress (hdr (sections self' ! sec_idx)) = VirtualAddress (hdr (sections self ! sec_idx))
    \<and> VirtualSize (hdr (sections self' ! sec_idx)) = sz
    \<and> py_index (data_directories self') idx = Inr (dd\<lparr>dd_Size := sz\<rparr>)"
proof -
  from get_directory_section_Some [OF sec]
  have in_range: "sec_idx < length (sections self)"
    and va: "VirtualAddress (hdr (sections self ! sec_idx)) = dd_VirtualAddress dd"
    by simp_all
  have impl: "resize_directory_impl self idx sz =
      (Inr (sec_idx, VirtualAddress (hdr (sections self ! sec_idx)),
            VirtualAddress (hdr (sections self ! sec_idx)) + sz),
       self\<lparr>sections := (sections self)[sec_idx :=
              (sections self ! sec_idx)\<lparr>hdr := (hdr (sections self ! sec_idx))\<lparr>VirtualSize := sz\<rparr>\<rparr>],
            data_directories := py_update (data_directories self) idx (dd\<lparr>dd_Size := sz\<rparr>)\<rparr>)"
    using dd sec le by (simp add: resize_directory_impl_def Let_def)
  from call have r: "r = Inr (dd_VirtualAddress dd, dd_VirtualAddress dd + sz)"
    and self': "self' = self\<lparr>sections := (sections self)[sec_idx :=
              (sections self ! sec_idx)\<lparr>hdr := (hdr (sections self ! sec_idx))\<lparr>VirtualSize := sz\<rparr>\<rparr>],
            data_directories := py_update (data_directories self) idx (dd\<lparr>dd_Size := sz\<rparr>)\<rparr>"
    by (simp_all add: resize_directory_def impl va)
  show ?thesis
    using r in_range py_index_update_same [OF dd] by (simp add: self')
qed

theorem shrink_in_place_witness:
  "py_index (data_directories bss_image) 1 = Inr \<lparr>dd_VirtualAddress = 0x1000, dd_Size = 0x10\<rparr>
   \<and> get_directory_section bss_image 0x1000 0x1010 = Some 0
   \<and> (8::int) \<le> VirtualSize (hdr (sections bss_image ! 0))
   \<and> fst (resize_directory bss_image 1 8) = Inr (0x1000, 0x1008)
   \<and> VirtualAddress (hdr (sections (snd (resize_directory bss_image 1 8)) ! 0)) = 0x1000
   \<and> VirtualSize (hdr (sections (snd (resize_directory bss_image 1 8)) ! 0)) = 8
   \<and> py_index (data_directories (snd (resize_directory bss_image 1 8))) 1
       = Inr \<lparr>dd_VirtualAddress = 0x1000, dd_Size = 8\<rparr>"
proof -
  have dd: "py_index (data_directories bss_image) 1 = Inr \<lparr>dd_VirtualAddress = 0x1000, dd_Size = 0x10\<rparr>"
    by (simp add: bss_image_def py_index_def)
  have sec: "get_directory_section bss_image
      (dd_VirtualAddress \<lparr>dd_VirtualAddress = 0x1000, dd_Size = 0x10\<rparr>)
      (dd_VirtualAddress \<lparr>dd_VirtualAddress = 0x1000, dd_Size = 0x10\<rparr>
        + dd_Size \<lparr>dd_VirtualAddress = 0x1000, dd_Size = 0x10\<rparr>) = Some 0"
    by (simp add: bss_image_def get_directory_section_def PeSection_def)
  have le: "(8::int) \<le> VirtualSize (hdr (sections bss_image ! 0))"
    by (simp add: bss_image_def PeSection_def)
  have call: "resize_directory bss_image 1 8
      = (fst (resize_directory bss_image 1 8), snd (resize_directory bss_image 1 8))"
    by simp
  have va: "VirtualAddress (hdr (sections bss_image ! 0)) = 0x1000"
    by (simp add: bss_image_def PeSection_def)
  from shrink_in_place [OF dd sec le call] dd sec le va show ?thesis
    by simp
qed

subsection \<open>Lookups out of range\<close>

text \<open>
  Claim C5 fails at the index equal to the number of directories.  The guard
  \<open>len(self._data_directories) < idx\<close> lets it through, and indexing raises \<open>IndexError\<close>
  in \<open>has_directory\<close> and in \<open>find_directory\<close>; the parsed test image has two directories.
  An index beyond that, and an entry whose virtual address is zero, are reported absent.
\<close>

theorem directory_lookup_at_length_raises:
  "int (length (data_directories bss_image)) = 2
   \<and> has_directory bss_image 2 = Inl IndexError
   \<and> find_directory bss_image 2 = Inl IndexError
   \<and> has_directory bss_image 3 = Inr False
   \<and> find_directory bss_image 3 = Inr None
   \<and> has_directory bss_image 0 = Inr False
   \<and> find_directory bss_image 0 = Inr None"
  by (simp add: bss_image_def has_directory_def find_directory_def py_index_def)

subsection \<open>Removing the signature\<close>

text \<open>
  Claim C6.  On an image whose security directory entry has a nonzero size,
  \<open>remove_signature\<close> raises \<open>signature is not at the end of the file\<close> when
  \<open>VirtualAddress + Size\<close> is not the end of the file (the trailer's offset plus its
  length), and it raises when \<open>VirtualAddress\<close> is before the trailer:
  \<open>signature is not contained in the pe trailer\<close>, unless the first check has already
  raised its own message.  Either way the image is left exactly as it was.
\<close>

theorem remove_signature_misplaced:
  assumes dd: "py_index (data_directories self) IMAGE_DIRECTORY_ENTRY_SECURITY = Inr dd"
    and nz: "dd_Size dd \<noteq> 0"
  shows "(dd_VirtualAddress dd + dd_Size dd \<noteq> trailer_offset self + int (length (trailer self))
        \<longrightarrow> remove_signature self
            = (Inl (RuntimeError ''signature is not at the end of the file''), self))
    \<and> (dd_VirtualAddress dd < trailer_offset self
        \<longrightarrow> remove_signature self
            = (Inl (RuntimeError
                 (if dd_VirtualAddress dd + dd_Size dd \<noteq> trailer_offset self + int (length (trailer self))
                  then ''signature is not at the end of the file''
                  else ''signature is not contained in the pe trailer'')), self))"
proof -
  from py_index_length [OF dd]
  have "\<not> int (length (data_directories self)) < IMAGE_DIRECTORY_ENTRY_SECURITY"
    by (simp add: IMAGE_DIRECTORY_ENTRY_SECURITY_def)
  then show ?thesis
    using dd nz by (simp add: remove_signature_def)
qed

theorem remove_signature_misplaced_witness:
  "py_index (data_directories misplaced_image) IMAGE_DIRECTORY_ENTRY_SECURITY
      = Inr \<lparr>dd_VirtualAddress = 0x3F0, dd_Size = 8\<rparr>
   \<and> trailer_offset misplaced_image = 0x400
   \<and> length (trailer misplaced_image) = 8
   \<and> remove_signature misplaced_image
      = (Inl (RuntimeError ''signature is not at the end of the file''), misplaced_image)
   \<and> py_index (data_directories inside_image) IMAGE_DIRECTORY_ENTRY_SECURITY
      = Inr \<lparr>dd_VirtualAddress = 0x3F8, dd_Size = 0x10\<rparr>
   \<and> trailer_offset inside_image = 0x400
   \<and> length (trailer inside_image) = 8
   \<and> remove_signature inside_image
      = (Inl (RuntimeError ''signature is not contained in the pe trailer''), inside_image)"
proof -
  have dd: "py_index (data_directories misplaced_image) IMAGE_DIRECTORY_ENTRY_SECURITY
      = Inr \<lparr>dd_VirtualAddress = 0x3F0, dd_Size = 8\<rparr>"
    by (simp add: misplaced_image_def signed_image_def bss_image_def py_index_def
        IMAGE_DIRECTORY_ENTRY_SECURITY_def)
  have nz: "dd_Size \<lparr>dd_VirtualAddress = 0x3F0, dd_Size = 8\<rparr> \<noteq> 0"
    by simp
  have off: "trailer_offset misplaced_image = 0x400"
    and len: "length (trailer misplaced_image) = 8"
    by (simp_all add: misplaced_image_def signed_image_def bss_image_def)
  have dd': "py_index (data_directories inside_image) IMAGE_DIRECTORY_ENTRY_SECURITY
      = Inr \<lparr>dd_VirtualAddress = 0x3F8, dd_Size = 0x10\<rparr>"
    by (simp add: inside_image_def signed_image_def bss_image_def py_index_def
        IMAGE_DIRECTORY_ENTRY_SECURITY_def)
  have nz': "dd_Size \<lparr>dd_VirtualAddress = 0x3F8, dd_Size = 0x10\<rparr> \<noteq> 0"
    by simp
  have off': "trailer_offset inside_image = 0x400"
    and len': "length (trailer inside_image) = 8"
    by (simp_all add: inside_image_def signed_image_def bss_image_def)
  from remove_signature_misplaced [OF dd nz] remove_signature_misplaced [OF dd' nz']
    dd off len dd' off' len'
  show ?thesis
    by simp
qed

text \<open>
  Claim C7.  After a call of \<open>remove_signature\<close> that returned, a second call returns
  too and changes nothing in the image; the security entry it finds, if the image has
  one, has size zero.
\<close>

theorem remove_signature_twice:
  assumes first: "remove_signature self = (Inr (), self1)"
  shows "remove_signature self1 = (Inr (), self1)
    \<and> (\<forall>dd. py_index (data_directories self1) IMAGE_DIRECTORY_ENTRY_SECURITY = Inr dd
          \<longrightarrow> dd_Size dd = 0)"
proof (cases "int (length (data_directories self)) < IMAGE_DIRECTORY_ENTRY_SECURITY")
  case True
  with first have "self1 = self"
    by (simp add: remove_signature_def)
  with True show ?thesis
    by (auto simp: remove_signature_def IMAGE_DIRECTORY_ENTRY_SECURITY_def
        dest: py_index_length)
next
  case False
  with first obtain dd where dd: "py_index (data_directories self) IMAGE_DIRECTORY_ENTRY_SECURITY = Inr dd"
    by (cases "py_index (data_directories self) IMAGE_DIRECTORY_ENTRY_SECURITY")
       (auto simp: remove_signature_def)
  show ?thesis
  proof (cases "dd_Size dd = 0")
    case True
    with first False dd have "self1 = self"
      by (simp add: remove_signature_def)
    with True False dd show ?thesis
      by (simp add: remove_signature_def)
  next
    case nz: False
    with first False dd have self1: "self1 =
        self\<lparr>trailer := slice_to (trailer self) (- dd_Size dd),
             data_directories := py_update (data_directories self) IMAGE_DIRECTORY_ENTRY_SECURITY
               (dd\<lparr>dd_VirtualAddress := 0, dd_Size := 0\<rparr>)\<rparr>"
      by (auto simp: remove_signature_def split: if_splits)
    have "py_index (data_directories self1) IMAGE_DIRECTORY_ENTRY_SECURITY
        = Inr (dd\<lparr>dd_VirtualAddress := 0, dd_Size := 0\<rparr>)"
      using py_index_update_same [OF dd] by (simp add: self1)
    moreover have "\<not> int (length (data_directories self1)) < IMAGE_DIRECTORY_ENTRY_SECURITY"
      using False by (simp add: self1)
    ultimately show ?thesis
      by (simp add: remove_signature_def)
  qed
qed

theorem remove_signature_twice_witness:
  "remove_signature signed_image
      = (Inr (), signed_image\<lparr>trailer := [],
           data_directories := (data_directories signed_image)
             [4 := \<lparr>dd_VirtualAddress = 0, dd_Size = 0\<rparr>]\<rparr>)
   \<and> remove_signature (signed_image\<lparr>trailer := [],
           data_directories := (data_directories signed_image)
             [4 := \<lparr>dd_VirtualAddress = 0, dd_Size = 0\<rparr>]\<rparr>)
      = (Inr (), signed_image\<lparr>trailer := [],
           data_directories := (data_directories signed_image)
             [4 := \<lparr>dd_VirtualAddress = 0, dd_Size = 0\<rparr>]\<rparr>)"
proof -
  have first: "remove_signature signed_image
      = (Inr (), signed_image\<lparr>trailer := [],
           data_directories := (data_directories signed_image)
             [4 := \<lparr>dd_VirtualAddress = 0, dd_Size = 0\<rparr>]\<rparr>)"
    by (simp add: remove_signature_def signed_image_def bss_image_def py_index_def py_update_def
        slice_to_def slice_bound_def IMAGE_DIRECTORY_ENTRY_SECURITY_def)
  from remove_signature_twice [OF first] first show ?thesis
    by simp
qed

subsection \<open>What the overlap check establishes\<close>

lemma ranges_overlap_iff:
  "ranges_overlap a b \<longleftrightarrow>
     (\<exists>x. VirtualAddress (hdr a) \<le> x \<and> x < vm_end a \<and> VirtualAddress (hdr b) \<le> x \<and> x < vm_end b)"
proof
  assume "ranges_overlap a b"
  then have "VirtualAddress (hdr a) \<le> max (VirtualAddress (hdr a)) (VirtualAddress (hdr b))
      \<and> max (VirtualAddress (hdr a)) (VirtualAddress (hdr b)) < vm_end a
      \<and> VirtualAddress (hdr b) \<le> max (VirtualAddress (hdr a)) (VirtualAddress (hdr b))
      \<and> max (VirtualAddress (hdr a)) (VirtualAddress (hdr b)) < vm_end b"
    by (simp add: ranges_overlap_def)
  then show "\<exists>x. VirtualAddress (hdr a) \<le> x \<and> x < vm_end a \<and> VirtualAddress (hdr b) \<le> x \<and> x < vm_end b"
    by blast
next
  assume "\<exists>x. VirtualAddress (hdr a) \<le> x \<and> x < vm_end a \<and> VirtualAddress (hdr b) \<le> x \<and> x < vm_end b"
  then show "ranges_overlap a b"
    by (auto simp: ranges_overlap_def)
qed

lemma apart_sym: "apart a b \<Longrightarrow> apart b a"
  by (auto simp: apart_def)

lemma apart_no_overlap: "apart a b \<Longrightarrow> \<not> ranges_overlap a b"
  by (auto simp: apart_def ranges_overlap_def)

lemma sorted_wrt_apart_insort:
  "sorted_wrt apart (insort_key f x ys) = sorted_wrt apart (x # ys)"
proof (induction ys)
  case Nil
  then show ?case by simp
next
  case (Cons y ys)
  then show ?case
    by (auto simp: set_insort_key dest: apart_sym)
qed

lemma sorted_wrt_apart_sort: "sorted_wrt apart (sort_key f xs) = sorted_wrt apart xs"
proof (induction xs)
  case Nil
  then show ?case by simp
next
  case (Cons x xs)
  then show ?case
    by (simp add: sorted_wrt_apart_insort)
qed

lemma check_vm_loop_ok:
  assumes "check_vm_loop al prev ys = Inr ()"
    and "sorted (map (\<lambda>sec. VirtualAddress (hdr sec)) ys)"
  shows "(\<forall>y\<in>set ys. VirtualAddress (hdr y) mod al = 0)
    \<and> sorted_wrt apart ys
    \<and> (\<forall>p. prev = Some p \<longrightarrow> (\<forall>y\<in>set ys. vm_end p \<le> VirtualAddress (hdr y)))"
  using assms
proof (induction ys arbitrary: prev)
  case Nil
  then show ?case by simp
next
  case (Cons y ys)
  from Cons.prems(1) have al: "al \<noteq> 0"
    and aligned: "VirtualAddress (hdr y) mod al = 0"
    and before: "\<And>p. prev = Some p \<Longrightarrow> vm_end p \<le> VirtualAddress (hdr y)"
    and rest: "check_vm_loop al (Some y) ys = Inr ()"
    by (auto simp: vm_end_def split: if_splits option.splits)
  from Cons.prems(2) have sorted_rest: "sorted (map (\<lambda>sec. VirtualAddress (hdr sec)) ys)"
    and least: "\<And>z. z \<in> set ys \<Longrightarrow> VirtualAddress (hdr y) \<le> VirtualAddress (hdr z)"
    by auto
  from Cons.IH [OF rest sorted_rest]
  have ih_al: "\<forall>z\<in>set ys. VirtualAddress (hdr z) mod al = 0"
    and ih_sorted: "sorted_wrt apart ys"
    and ih_prev: "\<forall>z\<in>set ys. vm_end y \<le> VirtualAddress (hdr z)"
    by simp_all
  have "\<forall>z\<in>set ys. apart y z"
    using ih_prev by (simp add: apart_def)
  moreover have "vm_end p \<le> VirtualAddress (hdr z)" if "prev = Some p" "z \<in> set (y # ys)" for p z
    using that before [of p] least [of z] by auto
  ultimately show ?case
    using aligned ih_al ih_sorted by auto
qed

lemma check_vm_overlaps_ok:
  assumes "check_vm_overlaps self = Inr ()"
  shows "(\<forall>sec\<in>set (sections self).
            VirtualAddress (hdr sec) mod SectionAlignment (opt_header self) = 0)
    \<and> (\<forall>i<length (sections self). \<forall>j<length (sections self).
          i \<noteq> j \<longrightarrow> \<not> ranges_overlap (sections self ! i) (sections self ! j))"
proof -
  let ?key = "\<lambda>sec. VirtualAddress (hdr sec)"
  have "check_vm_loop (SectionAlignment (opt_header self)) None (sort_key ?key (sections self)) = Inr ()"
    using assms by (simp add: check_vm_overlaps_def)
  from check_vm_loop_ok [OF this]
  have al: "\<forall>y\<in>set (sort_key ?key (sections self)).
        VirtualAddress (hdr y) mod SectionAlignment (opt_header self) = 0"
    and ap: "sorted_wrt apart (sort_key ?key (sections self))"
    by simp_all
  from ap have sw: "sorted_wrt apart (sections self)"
    by (simp only: sorted_wrt_apart_sort)
  have "\<not> ranges_overlap (sections self ! i) (sections self ! j)"
    if "i < length (sections self)" "j < length (sections self)" "i \<noteq> j" for i j
  proof (cases "i < j")
    case True
    with sw that have "apart (sections self ! i) (sections self ! j)"
      by (auto simp: sorted_wrt_iff_nth_less)
    then show ?thesis
      by (rule apart_no_overlap)
  next
    case False
    with that have "j < i" by simp
    with sw that have "apart (sections self ! j) (sections self ! i)"
      by (auto simp: sorted_wrt_iff_nth_less)
    then have "apart (sections self ! i) (sections self ! j)"
      by (rule apart_sym)
    then show ?thesis
      by (rule apart_no_overlap)
  qed
  with al show ?thesis
    by simp
qed

subsection \<open>Shrinking keeps the overlap check passing\<close>

lemma shrunk_refl: "shrunk a a"
  by (simp add: shrunk_def)

lemma insort_shrunk:
  "list_all2 shrunk ys ys' \<Longrightarrow> shrunk x x' \<Longrightarrow>
     list_all2 shrunk (insort_key (\<lambda>sec. VirtualAddress (hdr sec)) x ys)
       (insort_key (\<lambda>sec. VirtualAddress (hdr sec)) x' ys')"
proof (induction rule: list_all2_induct)
  case Nil
  then show ?case by simp
next
  case (Cons y ys y' ys')
  then show ?case
    by (auto simp: shrunk_def)
qed

lemma sort_shrunk:
  "list_all2 shrunk xs xs' \<Longrightarrow>
     list_all2 shrunk (sort_key (\<lambda>sec. VirtualAddress (hdr sec)) xs)
       (sort_key (\<lambda>sec. VirtualAddress (hdr sec)) xs')"
proof (induction rule: list_all2_induct)
  case Nil
  then show ?case by simp
next
  case (Cons x xs x' xs')
  then show ?case
    by (simp add: insort_shrunk)
qed

lemma check_vm_loop_shrunk:
  "list_all2 shrunk ys ys' \<Longrightarrow> rel_option shrunk prev prev' \<Longrightarrow>
     check_vm_loop al prev ys = Inr () \<Longrightarrow> check_vm_loop al prev' ys' = Inr ()"
proof (induction arbitrary: prev prev' rule: list_all2_induct)
  case Nil
  then show ?case by simp
next
  case (Cons y ys y' ys')
  from Cons.prems(2) have al: "al \<noteq> 0"
    and aligned: "VirtualAddress (hdr y) mod al = 0"
    and before: "\<And>p. prev = Some p \<Longrightarrow> vm_end p \<le> VirtualAddress (hdr y)"
    and rest: "check_vm_loop al (Some y) ys = Inr ()"
    by (auto simp: vm_end_def split: if_splits option.splits)
  have "check_vm_loop al (Some y') ys' = Inr ()"
    using Cons.IH [of "Some y" "Some y'"] Cons.hyps(1) rest by simp
  moreover have "vm_end p' \<le> VirtualAddress (hdr y')" if "prev' = Some p'" for p'
  proof -
    from that Cons.prems(1) obtain p where "prev = Some p" "shrunk p p'"
      by (cases prev) auto
    with before [of p] Cons.hyps(1) show ?thesis
      by (simp add: shrunk_def vm_end_def)
  qed
  ultimately show ?case
    using al aligned Cons.hyps(1)
    by (auto simp: shrunk_def vm_end_def split: option.splits)
qed

lemma list_update_shrunk:
  "i < length xs \<Longrightarrow> shrunk (xs ! i) x' \<Longrightarrow> list_all2 shrunk xs (xs[i := x'])"
  by (auto simp: list_all2_conv_all_nth nth_list_update shrunk_refl)

lemma check_vm_overlaps_shrunk:
  assumes "check_vm_overlaps self = Inr ()"
    and "list_all2 shrunk (sections self) (sections self')"
    and "opt_header self' = opt_header self"
  shows "check_vm_overlaps self' = Inr ()"
  using assms check_vm_loop_shrunk [OF sort_shrunk [OF assms(2)], of None None]
  by (simp add: check_vm_overlaps_def)

subsection \<open>Growing raises on sections without the attributes\<close>

lemma find_vm_hole_fresh:
  assumes "fresh secs"
  shows "find_vm_hole self secs sz = Inl (if secs = [] then IndexError else AttributeError)"
proof (cases secs)
  case Nil
  then show ?thesis
    by (simp add: find_vm_hole_def sorted_by_def py_index_def)
next
  case (Cons sec rest)
  with assms have "sec_VirtualAddress sec = None"
    by (simp add: fresh_def)
  with Cons show ?thesis
    by (simp add: find_vm_hole_def sorted_by_def getattr_def)
qed

lemma set_other_secs: "set (other_secs secs i) \<subseteq> set secs"
  by (auto simp: other_secs_def in_set_enumerate_eq)

lemma fresh_other_secs: "fresh secs \<Longrightarrow> fresh (other_secs secs i)"
  using set_other_secs [of secs i] by (auto simp: fresh_def)

lemma resize_directory_impl_fresh:
  assumes fr: "fresh (sections self)"
    and ok: "resize_directory_impl self idx sz = (Inr res, self')"
  shows "\<exists>dd sec_idx.
      py_index (data_directories self) idx = Inr dd
      \<and> get_directory_section self (dd_VirtualAddress dd) (dd_VirtualAddress dd + dd_Size dd)
          = Some sec_idx
      \<and> sz \<le> VirtualSize (hdr (sections self ! sec_idx))
      \<and> self' = self\<lparr>sections := (sections self)[sec_idx :=
              (sections self ! sec_idx)\<lparr>hdr := (hdr (sections self ! sec_idx))\<lparr>VirtualSize := sz\<rparr>\<rparr>],
            data_directories := py_update (data_directories self) idx (dd\<lparr>dd_Size := sz\<rparr>)\<rparr>"
proof -
  from ok obtain dd where dd: "py_index (data_directories self) idx = Inr dd"
    by (cases "py_index (data_directories self) idx") (auto simp: resize_directory_impl_def)
  from ok dd obtain sec_idx where
    sec: "get_directory_section self (dd_VirtualAddress dd) (dd_VirtualAddress dd + dd_Size dd)
        = Some sec_idx"
    by (cases "get_directory_section self (dd_VirtualAddress dd) (dd_VirtualAddress dd + dd_Size dd)")
       (auto simp: resize_directory_impl_def)
  have grow: "find_vm_hole self (other_secs (sections self) sec_idx) sz
      = Inl (if other_secs (sections self) sec_idx = [] then IndexError else AttributeError)"
    by (rule find_vm_hole_fresh [OF fresh_other_secs [OF fr]])
  have le: "sz \<le> VirtualSize (hdr (sections self ! sec_idx))"
  proof (rule ccontr)
    assume "\<not> sz \<le> VirtualSize (hdr (sections self ! sec_idx))"
    with ok dd sec grow show False
      by (simp add: resize_directory_impl_def Let_def)
  qed
  with ok dd sec show ?thesis
    by (simp add: resize_directory_impl_def Let_def)
qed

lemma resize_directory_keeps:
  assumes fr: "fresh (sections self)"
    and chk: "check_vm_overlaps self = Inr ()"
    and ok: "resize_directory self idx sz = (Inr sl, self')"
  shows "fresh (sections self') \<and> check_vm_overlaps self' = Inr ()"
proof -
  from ok obtain res where "resize_directory_impl self idx sz = (Inr res, self')"
    by (auto simp: resize_directory_def split: prod.splits sum.splits)
  from resize_directory_impl_fresh [OF fr this] obtain dd sec_idx where
    sec: "get_directory_section self (dd_VirtualAddress dd) (dd_VirtualAddress dd + dd_Size dd)
        = Some sec_idx"
    and le: "sz \<le> VirtualSize (hdr (sections self ! sec_idx))"
    and self': "self' = self\<lparr>sections := (sections self)[sec_idx :=
              (sections self ! sec_idx)\<lparr>hdr := (hdr (sections self ! sec_idx))\<lparr>VirtualSize := sz\<rparr>\<rparr>],
            data_directories := py_update (data_directories self) idx (dd\<lparr>dd_Size := sz\<rparr>)\<rparr>"
    by blast
  from get_directory_section_Some [OF sec] have in_range: "sec_idx < length (sections self)"
    by simp
  have "shrunk (sections self ! sec_idx)
      ((sections self ! sec_idx)\<lparr>hdr := (hdr (sections self ! sec_idx))\<lparr>VirtualSize := sz\<rparr>\<rparr>)"
    using le by (simp add: shrunk_def)
  from list_update_shrunk [OF in_range this]
  have rel: "list_all2 shrunk (sections self) (sections self')"
    by (simp add: self')
  have "check_vm_overlaps self' = Inr ()"
    by (rule check_vm_overlaps_shrunk [OF chk rel]) (simp add: self')
  moreover have "fresh (sections self')"
  proof -
    have "sec_VirtualAddress sec = None" if "sec \<in> set (sections self')" for sec
    proof -
      from that have "sec \<in> insert ((sections self ! sec_idx)\<lparr>hdr := (hdr (sections self ! sec_idx))\<lparr>VirtualSize := sz\<rparr>\<rparr>)
          (set (sections self))"
        using set_update_subset_insert by (fastforce simp: self')
      with fr in_range show ?thesis
        by (auto simp: fresh_def)
    qed
    then show ?thesis
      by (simp add: fresh_def)
  qed
  ultimately show ?thesis
    by simp
qed

lemma resize_all_keeps:
  "fresh (sections self) \<Longrightarrow> check_vm_overlaps self = Inr () \<Longrightarrow>
     resize_all self calls = (Inr (), self') \<Longrightarrow>
     fresh (sections self') \<and> check_vm_overlaps self' = Inr ()"
proof (induction calls arbitrary: self)
  case Nil
  then show ?case by simp
next
  case (Cons call calls)
  obtain idx sz where call: "call = (idx, sz)"
    by (cases call)
  from Cons.prems(3) call obtain sl self1 where
    step: "resize_directory self idx sz = (Inr sl, self1)"
    and rest: "resize_all self1 calls = (Inr (), self')"
    by (auto split: prod.splits sum.splits)
  from resize_directory_keeps [OF Cons.prems(1) Cons.prems(2) step]
  show ?case
    using Cons.IH [OF _ _ rest] by simp
qed

subsection \<open>What parsing establishes\<close>

lemma make_pe_section_props:
  "make_pe_section blob opt idx h = Inr sec \<Longrightarrow>
     hdr sec = h \<and> sec_VirtualAddress sec = None
     \<and> (data sec = None \<longleftrightarrow> PointerToRawData h = 0)"
  by (auto simp: make_pe_section_def PeSection_def Let_def split: if_splits)

lemma parse_sections_props:
  "parse_sections blob opt sec_idx n fin = Inr secs \<Longrightarrow>
     fresh secs \<and> (\<forall>sec\<in>set secs. data sec = None \<longleftrightarrow> PointerToRawData (hdr sec) = 0)"
proof (induction n arbitrary: sec_idx fin secs)
  case 0
  then show ?case by (simp add: fresh_def)
next
  case (Suc n)
  from Suc.prems obtain h fin' sec rest where
    sec: "make_pe_section blob opt sec_idx h = Inr sec"
    and rest: "parse_sections blob opt (Suc sec_idx) n fin' = Inr rest"
    and secs: "secs = sec # rest"
    by (auto simp: bind_eq_Inr)
  from Suc.IH [OF rest] make_pe_section_props [OF sec] show ?case
    by (auto simp: secs fresh_def)
qed

lemma init_layout_props:
  "init_layout blob pe_offs checksum_at h opt dds secs = Inr self \<Longrightarrow>
     sections self = secs \<and> check_vm_overlaps self = Inr ()
     \<and> trailer self = slice_from blob (trailer_offset self)"
  by (auto simp: init_layout_def Let_def bind_eq_Inr split: if_splits)

lemma parse_pe_props:
  assumes "parse_pe blob = Inr self"
  shows "fresh (sections self) \<and> check_vm_overlaps self = Inr ()
    \<and> (\<forall>sec\<in>set (sections self). data sec = None \<longleftrightarrow> PointerToRawData (hdr sec) = 0)"
proof -
  from assms obtain pe_offs checksum_at h opt dds fin secs where
    secs: "parse_sections blob opt 0 (nat (NumberOfSections h)) fin = Inr secs"
    and layout: "init_layout blob pe_offs checksum_at h opt dds secs = Inr self"
    by (auto simp: parse_pe_def bind_eq_Inr)
  from parse_sections_props [OF secs] init_layout_props [OF layout] show ?thesis
    by simp
qed

text \<open>
  The end of the file, as \<open>remove_signature\<close> computes it, is the length of the parsed
  buffer when the buffer reaches the end of its last present section.
\<close>

lemma parse_pe_file_end:
  assumes "parse_pe blob = Inr self"
    and "0 \<le> trailer_offset self"
    and "trailer_offset self \<le> int (length blob)"
  shows "trailer_offset self + int (length (trailer self)) = int (length blob)"
proof -
  from assms(1) obtain pe_offs checksum_at h opt dds secs where
    "init_layout blob pe_offs checksum_at h opt dds secs = Inr self"
    by (auto simp: parse_pe_def bind_eq_Inr)
  from init_layout_props [OF this] have "trailer self = slice_from blob (trailer_offset self)"
    by simp
  with assms(2,3) show ?thesis
    by (simp add: slice_from_def slice_bound_def)
qed

text \<open>
  Claim C3.  After any sequence of \<open>resize_directory\<close> calls on a parsed image that all
  return, \<open>_check_vm_overlaps\<close> passes (so \<open>store\<close> does not fail its re-validation), every
  section's \<open>VirtualAddress\<close> is a multiple of \<open>SectionAlignment\<close> and no two sections'
  virtual ranges overlap.
\<close>

theorem resize_sequence_keeps_vm_invariant:
  assumes "parse_pe blob = Inr self"
    and "resize_all self calls = (Inr (), self')"
  shows "check_vm_overlaps self' = Inr ()
    \<and> (\<forall>sec\<in>set (sections self').
          VirtualAddress (hdr sec) mod SectionAlignment (opt_header self') = 0)
    \<and> (\<forall>i<length (sections self'). \<forall>j<length (sections self').
          i \<noteq> j \<longrightarrow> \<not> ranges_overlap (sections self' ! i) (sections self' ! j))"
proof -
  from parse_pe_props [OF assms(1)]
  have "fresh (sections self)" and "check_vm_overlaps self = Inr ()"
    by simp_all
  from resize_all_keeps [OF this assms(2)] have "check_vm_overlaps self' = Inr ()"
    by simp
  with check_vm_overlaps_ok [OF this] show ?thesis
    by simp
qed

theorem resize_sequence_keeps_vm_invariant_witness:
  "parse_pe bss_buffer = Inr bss_image
   \<and> fst (resize_all bss_image [(1, 8), (1, 4)]) = Inr ()
   \<and> check_vm_overlaps (snd (resize_all bss_image [(1, 8), (1, 4)])) = Inr ()
   \<and> \<not> ranges_overlap (sections (snd (resize_all bss_image [(1, 8), (1, 4)])) ! 0)
         (sections (snd (resize_all bss_image [(1, 8), (1, 4)])) ! 1)"
proof -
  have run: "fst (resize_all bss_image [(1, 8), (1, 4)]) = Inr ()"
    by code_simp
  then have calls: "resize_all bss_image [(1, 8), (1, 4)]
      = (Inr (), snd (resize_all bss_image [(1, 8), (1, 4)]))"
    by (simp add: prod_eq_iff)
  have len: "length (sections (snd (resize_all bss_image [(1, 8), (1, 4)]))) = 2"
    by code_simp
  from resize_sequence_keeps_vm_invariant [OF parse_bss_buffer calls] parse_bss_buffer run len
  show ?thesis
    by simp
qed

subsection \<open>Serialising a section without data\<close>

lemma assign_offsets_data:
  "assign_offsets self section_offset secs = (r, secs') \<Longrightarrow> map data secs' = map data secs"
proof (induction secs arbitrary: section_offset r secs')
  case Nil
  then show ?case by simp
next
  case (Cons sec secs)
  then show ?case
    by (auto simp: Let_def split: if_splits prod.splits option.splits sum.splits)
qed

lemma section_blobs_None:
  "None \<in> set (map data secs) \<Longrightarrow> \<exists>e. section_blobs self secs = Inl e"
proof (induction secs)
  case Nil
  then show ?case by simp
next
  case (Cons sec secs)
  show ?case
  proof (cases "data sec")
    case None
    then show ?thesis by simp
  next
    case (Some d)
    with Cons.prems have "None \<in> set (map data secs)"
      by auto
    from Cons.IH [OF this] obtain e where "section_blobs self secs = Inl e"
      by blast
    with Some show ?thesis
      by (cases "file_align self (int (length d))") (simp_all add: Let_def)
  qed
qed

lemma store_output_None:
  assumes "None \<in> set (map data (sections self))"
  shows "\<exists>e. store_output self header_pad = Inl e"
proof -
  from section_blobs_None [OF assms] obtain e where
    sb: "section_blobs self (sections self) = Inl e"
    by blast
  show ?thesis
    unfolding store_output_def
    by (rule bind_fails, rule bind_fails, rule bind_fails, rule bind_fails, rule bind_fails)
       (simp add: sb)
qed

lemma store_None:
  assumes "None \<in> set (map data (sections self))"
  shows "\<exists>e. fst (store self) = Inl e"
proof (cases "check_vm_overlaps self")
  case (Inl e)
  then show ?thesis by (simp add: store_def)
next
  case chk: (Inr u)
  show ?thesis
  proof (cases "file_align self (header_end self)")
    case (Inl e)
    with chk show ?thesis by (simp add: store_def)
  next
    case al: (Inr section_offset)
    obtain r secs where ao: "assign_offsets self section_offset (sections self) = (r, secs)"
      by (cases "assign_offsets self section_offset (sections self)")
    show ?thesis
    proof (cases r)
      case (Inl e)
      with chk al ao show ?thesis by (simp add: store_def)
    next
      case (Inr final_offset)
      from assign_offsets_data [OF ao] assms
      have "None \<in> set (map data (sections
          (self\<lparr>sections := secs, opt_header := (opt_header self)\<lparr>CheckSum := 0\<rparr>\<rparr>)))"
        by simp
      from store_output_None [OF this] chk al ao Inr show ?thesis
        by (simp add: store_def)
    qed
  qed
qed

text \<open>
  Claim C9.  \<open>store\<close> raises on every parsed image with a section whose
  \<open>PointerToRawData\<close> is zero: the data of such a section is \<open>None\<close>, and the last loop
  of \<open>store\<close> takes \<open>len(sec.data)\<close> of every section.
\<close>

theorem store_fails_without_file_backing:
  assumes "parse_pe blob = Inr self"
    and "sec \<in> set (sections self)"
    and "PointerToRawData (hdr sec) = 0"
  shows "data sec = None \<and> (\<exists>e. fst (store self) = Inl e)"
proof -
  from parse_pe_props [OF assms(1)] assms(2,3) have "data sec = None"
    by simp
  with assms(2) have "None \<in> set (map data (sections self))"
    by force
  from store_None [OF this] \<open>data sec = None\<close> show ?thesis
    by simp
qed

theorem store_fails_without_file_backing_witness:
  "parse_pe bss_buffer = Inr bss_image
   \<and> sections bss_image ! 1 \<in> set (sections bss_image)
   \<and> PointerToRawData (hdr (sections bss_image ! 1)) = 0
   \<and> data (sections bss_image ! 1) = None
   \<and> (\<exists>e. fst (store bss_image) = Inl e)"
proof -
  have mem: "sections bss_image ! 1 \<in> set (sections bss_image)"
    by (simp add: bss_image_def)
  have ptr: "PointerToRawData (hdr (sections bss_image ! 1)) = 0"
    by (simp add: bss_image_def PeSection_def)
  from store_fails_without_file_backing [OF parse_bss_buffer mem ptr] parse_bss_buffer mem ptr
  show ?thesis
    by simp
qed

text \<open>
  Claim C1 fails on the test buffer, a well-formed 32-bit image of 1024 bytes with a
  \<open>.text\<close> section and a \<open>.bss\<close> section without file backing: it parses, and \<open>store\<close>
  raises \<open>TypeError\<close> instead of returning a buffer.
\<close>

theorem round_trip_raises_on_bss_section:
  "parse_pe bss_buffer = Inr bss_image \<and> fst (store bss_image) = Inl TypeError"
proof -
  have "fst (store bss_image) = Inl TypeError"
    by code_simp
  with parse_bss_buffer show ?thesis
    by simp
qed

text \<open>
  On a parsed image the growing branch of \<open>_resize_directory\<close> always raises, whatever the
  directory and the new size: \<open>_find_vm_hole\<close> is given section objects, which have no
  attribute \<open>VirtualAddress\<close>.
\<close>

lemma grow_raises_on_parsed_image:
  assumes parsed: "parse_pe blob = Inr self"
    and dd: "py_index (data_directories self) idx = Inr dd"
    and sec: "get_directory_section self (dd_VirtualAddress dd) (dd_VirtualAddress dd + dd_Size dd)
        = Some sec_idx"
    and gt: "VirtualSize (hdr (sections self ! sec_idx)) < sz"
  shows "resize_directory self idx sz
    = (Inl (if other_secs (sections self) sec_idx = [] then IndexError else AttributeError), self)"
proof -
  from parse_pe_props [OF parsed] have "fresh (sections self)"
    by simp
  from find_vm_hole_fresh [OF fresh_other_secs [OF this]]
  have "find_vm_hole self (other_secs (sections self) sec_idx) sz
      = Inl (if other_secs (sections self) sec_idx = [] then IndexError else AttributeError)" .
  with dd sec gt show ?thesis
    by (simp add: resize_directory_def resize_directory_impl_def Let_def)
qed

text \<open>
  Claim C2 fails on the parsed test image: its import directory (index 1) is exactly the
  \<open>.text\<close> section, of virtual size \<open>0x10\<close>; growing it to \<open>0x150\<close> raises \<open>AttributeError\<close>
  in \<open>_find_vm_hole\<close> and leaves the image as it was.
\<close>

theorem resize_directory_grow_raises:
  "parse_pe bss_buffer = Inr bss_image
   \<and> find_directory bss_image 1 = Inr (Some (0x1000, 0x1010))
   \<and> get_directory_section bss_image 0x1000 0x1010 = Some 0
   \<and> VirtualSize (hdr (sections bss_image ! 0)) = 0x10
   \<and> resize_directory bss_image 1 0x150 = (Inl AttributeError, bss_image)"
proof -
  have "find_directory bss_image 1 = Inr (Some (0x1000, 0x1010))"
    by (simp add: bss_image_def find_directory_def py_index_def)
  moreover have "get_directory_section bss_image 0x1000 0x1010 = Some 0"
    by (simp add: bss_image_def get_directory_section_def PeSection_def)
  moreover have "VirtualSize (hdr (sections bss_image ! 0)) = 0x10"
    by (simp add: bss_image_def PeSection_def)
  moreover have "resize_directory bss_image 1 0x150 = (Inl AttributeError, bss_image)"
    by code_simp
  ultimately show ?thesis
    using parse_bss_buffer by simp
qed

end
